theory Spec2Isabelle
  imports Main "HOL-Library.DAList" "HOL-Library.Sublist"
begin

section \<open>Errors\<close>

text \<open>
  Every \<^verbatim>\<open>fmt.Errorf\<close> of \<^verbatim>\<open>internal/server/server.go\<close> is a constructor; an error
  that a collaborator returned (a source driver, the network, ...) is \<open>ErrorNew\<close> with its
  text. A constructor with an \<open>error\<close> argument wraps it (\<^verbatim>\<open>%w\<close>).
\<close>

datatype error =
    ErrorNew string
  | TelemetryError error
  | HttpLogError error
  | InvalidLoggingFormat string
  | SourceInitError string error
  | AuthServiceInitError string error
  | ToolInitError string error
  | ToolsetInitError string error
  | AlreadyListening string
  | ListenerError string error

text \<open>
  The text of an error, as \<^verbatim>\<open>err.Error()\<close> gives it. The verb \<^verbatim>\<open>%q\<close> is Go's
  \<^verbatim>\<open>strconv.Quote\<close>, taken as the parameter \<open>q\<close>.
\<close>

fun error_string :: "(string \<Rightarrow> string) \<Rightarrow> error \<Rightarrow> string" where
  "error_string q (ErrorNew m) = m"
| "error_string q (TelemetryError e) =
     ''unable to create telemetry instrumentation: '' @ error_string q e"
| "error_string q (HttpLogError e) = ''unable to initialize http log: '' @ error_string q e"
| "error_string q (InvalidLoggingFormat f) = ''invalid Logging format: '' @ q f"
| "error_string q (SourceInitError n e) =
     ''unable to initialize source '' @ q n @ '': '' @ error_string q e"
| "error_string q (AuthServiceInitError n e) =
     ''unable to initialize auth service '' @ q n @ '': '' @ error_string q e"
| "error_string q (ToolInitError n e) =
     ''unable to initialize tool '' @ q n @ '': '' @ error_string q e"
| "error_string q (ToolsetInitError n e) =
     ''unable to initialize toolset '' @ q n @ '': '' @ error_string q e"
| "error_string q (AlreadyListening a) = ''server is already listening: '' @ a"
| "error_string q (ListenerError a e) =
     ''failed to open listener for '' @ q a @ '': '' @ error_string q e"

section \<open>The server\<close>

text \<open>
  A Go \<^verbatim>\<open>map[string]T\<close> is an association list with distinct keys
  (\<^typ>\<open>(string, 'v) alist\<close>): \<^verbatim>\<open>make\<close> is \<^const>\<open>DAList.empty\<close>, \<^verbatim>\<open>m[k] = v\<close> is
  \<^const>\<open>DAList.update\<close>, \<^verbatim>\<open>m[k]\<close> is \<^const>\<open>DAList.lookup\<close>.
\<close>

type_synonym 'v gomap = "(string, 'v) alist"

text \<open>A \<^verbatim>\<open>net.Listener\<close>, known by the address it listens on.\<close>

record Listener =
  Addr :: string

text \<open>
  \<^verbatim>\<open>type Server struct\<close>. Of \<^verbatim>\<open>srv *http.Server\<close> the address is kept; the router, the
  logger, the instrumentation and the SSE manager are handles with no part in what
  follows. \<open>listener\<close> is \<open>None\<close> for Go's \<^verbatim>\<open>nil\<close>.
\<close>

record ('src, 'auth, 'tool, 'toolset) Server =
  version :: string
  srv_Addr :: string
  listener :: "Listener option"
  sources :: "'src gomap"
  authServices :: "'auth gomap"
  tools :: "'tool gomap"
  toolsets :: "'toolset gomap"

subsection \<open>Listen, Serve, Shutdown\<close>

text \<open>
  \<^verbatim>\<open>func (s *Server) Listen(ctx) error\<close>. The call \<^verbatim>\<open>lc.Listen(ctx, "tcp", s.srv.Addr)\<close>
  is the parameter \<open>net\<close>: the outcome the operating system gives for an address. The
  result is the server after the call and the error returned (\<open>None\<close> for \<^verbatim>\<open>nil\<close>).
  On a failure \<^verbatim>\<open>s.listener, err = lc.Listen(...)\<close> stores the nil listener that comes
  with the error.
\<close>

definition Listen ::
  "(string \<Rightarrow> error + Listener) \<Rightarrow> ('src, 'auth, 'tool, 'toolset) Server
     \<Rightarrow> ('src, 'auth, 'tool, 'toolset) Server \<times> error option" where
  "Listen net s =
     (case listener s of
        Some l \<Rightarrow> (s, Some (AlreadyListening (Addr l)))
      | None \<Rightarrow>
          (case net (srv_Addr s) of
             Inl err \<Rightarrow> (s\<lparr>listener := None\<rparr>, Some (ListenerError (srv_Addr s) err))
           | Inr l \<Rightarrow> (s\<lparr>listener := Some l\<rparr>, None)))"

text \<open>
  \<^verbatim>\<open>Serve\<close> returns what \<^verbatim>\<open>s.srv.Serve(s.listener)\<close> returns and \<^verbatim>\<open>Shutdown\<close> what
  \<^verbatim>\<open>s.srv.Shutdown(ctx)\<close> returns (the parameter \<open>r\<close>); neither assigns a field of the
  server.
\<close>

definition Serve ::
  "(Listener option \<Rightarrow> error option) \<Rightarrow> ('src, 'auth, 'tool, 'toolset) Server
     \<Rightarrow> ('src, 'auth, 'tool, 'toolset) Server \<times> error option" where
  "Serve r s = (s, r (listener s))"

definition Shutdown ::
  "error option \<Rightarrow> ('src, 'auth, 'tool, 'toolset) Server
     \<Rightarrow> ('src, 'auth, 'tool, 'toolset) Server \<times> error option" where
  "Shutdown r s = (s, r)"

text \<open>
  A history of one server instance: the methods called on it, in order, each with what its
  collaborator answers.
\<close>

datatype call =
    CallListen "string \<Rightarrow> error + Listener"
  | CallServe "Listener option \<Rightarrow> error option"
  | CallShutdown "error option"

fun call_method ::
  "call \<Rightarrow> ('src, 'auth, 'tool, 'toolset) Server
     \<Rightarrow> ('src, 'auth, 'tool, 'toolset) Server \<times> error option" where
  "call_method (CallListen net) s = Listen net s"
| "call_method (CallServe r) s = Serve r s"
| "call_method (CallShutdown r) s = Shutdown r s"

text \<open>The number of calls of \<^verbatim>\<open>Listen\<close> in a history that return \<^verbatim>\<open>nil\<close>.\<close>

fun listens_ok :: "('src, 'auth, 'tool, 'toolset) Server \<Rightarrow> call list \<Rightarrow> nat" where
  "listens_ok s [] = 0"
| "listens_ok s (c # cs) =
     (case call_method c s of
        (s', r) \<Rightarrow>
          (case c of
             CallListen net \<Rightarrow> (if r = None then 1 else 0)
           | _ \<Rightarrow> 0) + listens_ok s' cs)"

section \<open>The registry: NewServer\<close>

subsection \<open>Configuration\<close>

text \<open>
  \<^verbatim>\<open>SourceConfig\<close>, \<^verbatim>\<open>AuthServiceConfig\<close> and \<^verbatim>\<open>ToolConfig\<close> are interfaces: a value is the
  record of its methods. \<open>sc_Initialize\<close> is what \<^verbatim>\<open>sc.Initialize(childCtx, tracer)\<close>
  answers in this run, \<open>ac_Initialize\<close> what \<^verbatim>\<open>sc.Initialize()\<close> answers for an auth
  service, and \<open>tc_Initialize\<close> the method \<^verbatim>\<open>tc.Initialize(sourcesMap)\<close> of a tool
  configuration, a function of the source map it is handed.
\<close>

record 'src SourceConfig =
  SourceConfigKind :: string
  sc_Initialize :: "error + 'src"

record 'auth AuthServiceConfig =
  AuthServiceConfigKind :: string
  ac_Initialize :: "error + 'auth"

record ('src, 'tool) ToolConfig =
  ToolConfigKind :: string
  tc_Initialize :: "'src gomap \<Rightarrow> error + 'tool"

text \<open>\<^verbatim>\<open>tools.ToolsetConfig{Name: ..., ToolNames: ...}\<close>.\<close>

record ToolsetConfig =
  Name :: string
  ToolNames :: "string list"

text \<open>
  \<^verbatim>\<open>ServerConfig\<close>, with the fields \<^verbatim>\<open>NewServer\<close> reads. \<open>LogLevel\<close> and \<open>LoggingFormat\<close>
  hold what \<^verbatim>\<open>.String()\<close> gives; \<open>ToolsetConfigs\<close> may be the nil map (\<open>None\<close>).
\<close>

record ('src, 'auth, 'tool) ServerConfig =
  Version :: string
  Address :: string
  Port :: int
  LogLevel :: string
  LoggingFormat :: string
  SourceConfigs :: "'src SourceConfig gomap"
  AuthServiceConfigs :: "'auth AuthServiceConfig gomap"
  ToolConfigs :: "('src, 'tool) ToolConfig gomap"
  ToolsetConfigs :: "ToolsetConfig gomap option"

subsection \<open>What NewServer calls outside its file\<close>

text \<open>
  The functions \<^verbatim>\<open>NewServer\<close> calls that are defined elsewhere are parameters, each giving
  the error it returns (\<open>None\<close> for \<^verbatim>\<open>nil\<close>) or its result:
  \<^verbatim>\<open>CreateTelemetryInstrumentation(cfg.Version)\<close>, \<^verbatim>\<open>log.SeverityToLevel\<close>,
  \<^verbatim>\<open>tools.ToolsetConfig.Initialize(version, toolsMap)\<close>,
  \<^verbatim>\<open>net.JoinHostPort(cfg.Address, strconv.Itoa(cfg.Port))\<close>, \<^verbatim>\<open>apiRouter(s)\<close> and
  \<^verbatim>\<open>mcpRouter(s)\<close>.

  \<open>range_rank\<close> is the Go runtime's choice of iteration order: the \<open>i\<close>-th \<^verbatim>\<open>range\<close> loop
  over a map visits the keys by increasing \<open>range_rank env i\<close>. Every order of the
  entries is the order of some rank (\<open>go_range_any_order\<close> below), so a statement for
  every environment is a statement for every iteration order.
\<close>

record ('src, 'auth, 'tool, 'toolset) environment =
  CreateTelemetryInstrumentation :: "string \<Rightarrow> error option"
  SeverityToLevel :: "string \<Rightarrow> error option"
  ToolsetInitialize :: "ToolsetConfig \<Rightarrow> string \<Rightarrow> 'tool gomap \<Rightarrow> error + 'toolset"
  JoinHostPort :: "string \<Rightarrow> int \<Rightarrow> string"
  apiRouter :: "('src, 'auth, 'tool, 'toolset) Server \<Rightarrow> error option"
  mcpRouter :: "('src, 'auth, 'tool, 'toolset) Server \<Rightarrow> error option"
  range_rank :: "nat \<Rightarrow> string \<Rightarrow> nat"

text \<open>The entries of a map in the order a \<^verbatim>\<open>range\<close> loop with the given rank visits them.\<close>

definition go_range :: "(string \<Rightarrow> nat) \<Rightarrow> 'v gomap \<Rightarrow> (string \<times> 'v) list" where
  "go_range rank m = sort_key (\<lambda>(k, v). rank k) (DAList.impl_of m)"

text \<open>The keys of a map, and the rank that visits keys in the order of a given list.\<close>

definition keys :: "'v gomap \<Rightarrow> string list" where
  "keys m = map fst (DAList.impl_of m)"

definition position :: "string list \<Rightarrow> string \<Rightarrow> nat" where
  "position ks k = length (takeWhile (\<lambda>x. x \<noteq> k) ks)"

subsection \<open>The trace of a build\<close>

text \<open>
  Each \<^verbatim>\<open>Initialize\<close> call may open connections, and \<^verbatim>\<open>NewServer\<close> starts a tracing
  span around each (\<^verbatim>\<open>toolbox/server/source/init\<close>, \<^verbatim>\<open>.../auth/init\<close>,
  \<^verbatim>\<open>.../tool/init\<close>, \<^verbatim>\<open>.../toolset/init\<close>) with the component's name. The trace of a
  build is the list of these calls in the order they are made; a tool or toolset call
  also records the map handed to \<^verbatim>\<open>Initialize\<close> (\<^verbatim>\<open>sourcesMap\<close>, \<^verbatim>\<open>toolsMap\<close>). The log
  lines are left out.
\<close>

datatype ('src, 'tool) event =
    SourceInit string
  | AuthServiceInit string
  | ToolInit string "'src gomap"
  | ToolsetInit string "'tool gomap"

fun phase :: "('src, 'tool) event \<Rightarrow> nat" where
  "phase (SourceInit n) = 0"
| "phase (AuthServiceInit n) = 1"
| "phase (ToolInit n sourcesMap) = 2"
| "phase (ToolsetInit n toolsMap) = 3"

subsection \<open>The four loops\<close>

text \<open>
  The four loops of \<^verbatim>\<open>NewServer\<close> have one shape:
  \<^verbatim>\<open>for name, c := range configs { x, err := func() { span; x, err := c.Initialize(...);
  if err != nil { return nil, fmt.Errorf("unable to initialize ... %q: %w", name, err) };
  return x, nil }(); if err != nil { return nil, err }; m[name] = x }\<close>.
  \<open>range_init span init wrap\<close> runs it over the entries in the order visited, from the
  map \<open>m\<close> built so far: it stops at the first error, wrapped by \<open>wrap\<close>.
\<close>

fun range_init ::
  "(string \<Rightarrow> 'e) \<Rightarrow> ('c \<Rightarrow> error + 'a) \<Rightarrow> (string \<Rightarrow> error \<Rightarrow> error)
     \<Rightarrow> (string \<times> 'c) list \<Rightarrow> 'a gomap \<Rightarrow> 'e list \<times> (error + 'a gomap)" where
  "range_init span init wrap [] m = ([], Inr m)"
| "range_init span init wrap ((name, c) # rest) m =
     (case init c of
        Inl err \<Rightarrow> ([span name], Inl (wrap name err))
      | Inr a \<Rightarrow>
          (case range_init span init wrap rest (DAList.update name a m) of
             (evs, r) \<Rightarrow> (span name # evs, r)))"

text \<open>Lines 100-121: the sources.\<close>

definition initSources ::
  "('src, 'auth, 'tool, 'toolset) environment \<Rightarrow> ('src, 'auth, 'tool) ServerConfig
     \<Rightarrow> ('src, 'tool) event list \<times> (error + 'src gomap)" where
  "initSources env cfg =
     range_init SourceInit sc_Initialize SourceInitError
       (go_range (range_rank env 0) (SourceConfigs cfg)) DAList.empty"

text \<open>Lines 124-145: the auth services.\<close>

definition initAuthServices ::
  "('src, 'auth, 'tool, 'toolset) environment \<Rightarrow> ('src, 'auth, 'tool) ServerConfig
     \<Rightarrow> ('src, 'tool) event list \<times> (error + 'auth gomap)" where
  "initAuthServices env cfg =
     range_init AuthServiceInit ac_Initialize AuthServiceInitError
       (go_range (range_rank env 1) (AuthServiceConfigs cfg)) DAList.empty"

text \<open>Lines 148-169: the tools, each handed \<^verbatim>\<open>sourcesMap\<close>.\<close>

definition initTools ::
  "('src, 'auth, 'tool, 'toolset) environment \<Rightarrow> ('src, 'auth, 'tool) ServerConfig
     \<Rightarrow> 'src gomap \<Rightarrow> ('src, 'tool) event list \<times> (error + 'tool gomap)" where
  "initTools env cfg sourcesMap =
     range_init (\<lambda>name. ToolInit name sourcesMap)
       (\<lambda>tc. tc_Initialize tc sourcesMap) ToolInitError
       (go_range (range_rank env 2) (ToolConfigs cfg)) DAList.empty"

text \<open>
  Lines 172-180: \<^verbatim>\<open>allToolNames\<close> collects the keys of \<^verbatim>\<open>toolsMap\<close> by a \<^verbatim>\<open>range\<close>; a nil
  \<^verbatim>\<open>cfg.ToolsetConfigs\<close> is replaced by an empty map; then
  \<^verbatim>\<open>cfg.ToolsetConfigs[""] = tools.ToolsetConfig{Name: "", ToolNames: allToolNames}\<close>.
\<close>

definition withDefaultToolset ::
  "('src, 'auth, 'tool, 'toolset) environment \<Rightarrow> ('src, 'auth, 'tool) ServerConfig
     \<Rightarrow> 'tool gomap \<Rightarrow> ToolsetConfig gomap" where
  "withDefaultToolset env cfg toolsMap =
     (let allToolNames = map fst (go_range (range_rank env 3) toolsMap) in
      DAList.update [] \<lparr>Name = [], ToolNames = allToolNames\<rparr>
        (case ToolsetConfigs cfg of None \<Rightarrow> DAList.empty | Some m \<Rightarrow> m))"

text \<open>Lines 182-202: the toolsets, each handed \<^verbatim>\<open>cfg.Version\<close> and \<^verbatim>\<open>toolsMap\<close>.\<close>

definition initToolsets ::
  "('src, 'auth, 'tool, 'toolset) environment \<Rightarrow> ('src, 'auth, 'tool) ServerConfig
     \<Rightarrow> 'tool gomap \<Rightarrow> ('src, 'tool) event list \<times> (error + 'toolset gomap)" where
  "initToolsets env cfg toolsMap =
     range_init (\<lambda>name. ToolsetInit name toolsMap)
       (\<lambda>tc. ToolsetInitialize env tc (Version cfg) toolsMap) ToolsetInitError
       (go_range (range_rank env 4) (withDefaultToolset env cfg toolsMap)) DAList.empty"

subsection \<open>NewServer\<close>

text \<open>
  Lines 56-98: the telemetry instrumentation, the log level and the logging format, each
  of which can end the build; the router and its middleware have no other part here.
\<close>

definition httpSetup ::
  "('src, 'auth, 'tool, 'toolset) environment \<Rightarrow> ('src, 'auth, 'tool) ServerConfig
     \<Rightarrow> error option" where
  "httpSetup env cfg =
     (case CreateTelemetryInstrumentation env (Version cfg) of
        Some err \<Rightarrow> Some (TelemetryError err)
      | None \<Rightarrow>
          (case SeverityToLevel env (LogLevel cfg) of
             Some err \<Rightarrow> Some (HttpLogError err)
           | None \<Rightarrow>
               if LoggingFormat cfg = ''json'' then None
               else if LoggingFormat cfg = ''standard'' then None
               else Some (InvalidLoggingFormat (LoggingFormat cfg))))"

text \<open>
  \<^verbatim>\<open>func NewServer(ctx, cfg, l) (*Server, error)\<close>: the trace of the build, and the error
  (\<open>Inl\<close>, with no server) or the server (\<open>Inr\<close>). The errors of \<^verbatim>\<open>apiRouter\<close> and
  \<^verbatim>\<open>mcpRouter\<close> are returned as they are.
\<close>

definition NewServer ::
  "('src, 'auth, 'tool, 'toolset) environment \<Rightarrow> ('src, 'auth, 'tool) ServerConfig
     \<Rightarrow> ('src, 'tool) event list \<times> (error + ('src, 'auth, 'tool, 'toolset) Server)" where
  "NewServer env cfg =
     (case httpSetup env cfg of
        Some err \<Rightarrow> ([], Inl err)
      | None \<Rightarrow>
     (case initSources env cfg of
        (ev1, Inl err) \<Rightarrow> (ev1, Inl err)
      | (ev1, Inr sourcesMap) \<Rightarrow>
     (case initAuthServices env cfg of
        (ev2, Inl err) \<Rightarrow> (ev1 @ ev2, Inl err)
      | (ev2, Inr authServicesMap) \<Rightarrow>
     (case initTools env cfg sourcesMap of
        (ev3, Inl err) \<Rightarrow> (ev1 @ ev2 @ ev3, Inl err)
      | (ev3, Inr toolsMap) \<Rightarrow>
     (case initToolsets env cfg toolsMap of
        (ev4, Inl err) \<Rightarrow> (ev1 @ ev2 @ ev3 @ ev4, Inl err)
      | (ev4, Inr toolsetsMap) \<Rightarrow>
          (let s = \<lparr>version = Version cfg,
                    srv_Addr = JoinHostPort env (Address cfg) (Port cfg),
                    listener = None,
                    sources = sourcesMap, authServices = authServicesMap,
                    tools = toolsMap, toolsets = toolsetsMap\<rparr>
           in (case apiRouter env s of
                 Some err \<Rightarrow> (ev1 @ ev2 @ ev3 @ ev4, Inl err)
               | None \<Rightarrow>
                   (case mcpRouter env s of
                      Some err \<Rightarrow> (ev1 @ ev2 @ ev3 @ ev4, Inl err)
                    | None \<Rightarrow> (ev1 @ ev2 @ ev3 @ ev4, Inr s)))))))))"

section \<open>Tools and toolsets\<close>

text \<open>
  Modelled from the spec: a declared parameter (the type \<^verbatim>\<open>tools.Parameter\<close> is not among the
  sources; the tests build values with \<^verbatim>\<open>tools.NewStringParameter(name, description)\<close> and
  \<^verbatim>\<open>tools.NewArrayParameter(name, description, items)\<close>). "A declared argument slot: name,
  semantic type (string, integer, boolean, array-of-T, object), human-readable
  description"; the pipeline below asks that "every required parameter" be present, hence
  \<open>p_Required\<close>.
\<close>

datatype ptype = TString | TInteger | TBoolean | TArray ptype | TObject

record Parameter =
  p_Name :: string
  p_Type :: ptype
  p_Description :: string
  p_Required :: bool

text \<open>
  A tool configuration as \<^verbatim>\<open>bigtable_test.go\<close> builds it:
  \<^verbatim>\<open>bigtable.Config{Name, Kind, Source, Description, Statement, AuthRequired, Parameters,
  TemplateParameters}\<close>.
\<close>

record Config =
  cfg_Name :: string
  cfg_Kind :: string
  cfg_Source :: string
  cfg_Description :: string
  cfg_Statement :: string
  cfg_AuthRequired :: "string list"
  cfg_Parameters :: "Parameter list"
  cfg_TemplateParameters :: "Parameter list"

text \<open>
  Modelled from the spec: the live \<^verbatim>\<open>Tool\<close> (package \<^verbatim>\<open>tools\<close>, not among the sources),
  "a named, invocable capability bound to exactly one Source" with its kind, description,
  statement, parameters, template parameters and \<^verbatim>\<open>AuthRequired\<close> set.
\<close>

record 'src Tool =
  tool_Name :: string
  tool_Kind :: string
  tool_Description :: string
  tool_Statement :: string
  tool_Parameters :: "Parameter list"
  tool_TemplateParameters :: "Parameter list"
  tool_AuthRequired :: "string list"
  tool_Source :: 'src

text \<open>
  Modelled from the spec: \<^verbatim>\<open>Initialize\<close> of a tool configuration (the method of
  \<^verbatim>\<open>bigtable.Config\<close> and of the other kinds, not among the sources): "each Tool's
  constructor receives the full Source map and resolves its declared Source name, failing
  with a descriptive error if resolution fails". The specification does not word that
  error: it is the parameter \<open>unresolved\<close>, applied to the source name.
\<close>

definition Config_Initialize ::
  "(string \<Rightarrow> error) \<Rightarrow> Config \<Rightarrow> 'src gomap \<Rightarrow> error + 'src Tool" where
  "Config_Initialize unresolved c srcs =
     (case DAList.lookup srcs (cfg_Source c) of
        None \<Rightarrow> Inl (unresolved (cfg_Source c))
      | Some s \<Rightarrow>
          Inr \<lparr>tool_Name = cfg_Name c, tool_Kind = cfg_Kind c,
               tool_Description = cfg_Description c, tool_Statement = cfg_Statement c,
               tool_Parameters = cfg_Parameters c,
               tool_TemplateParameters = cfg_TemplateParameters c,
               tool_AuthRequired = cfg_AuthRequired c, tool_Source = s\<rparr>)"

text \<open>The configuration as a value of the interface \<^verbatim>\<open>ToolConfig\<close>.\<close>

definition ToolConfig_of ::
  "(string \<Rightarrow> error) \<Rightarrow> Config \<Rightarrow> ('src, 'src Tool) ToolConfig" where
  "ToolConfig_of unresolved c =
     \<lparr>ToolConfigKind = cfg_Kind c, tc_Initialize = Config_Initialize unresolved c\<rparr>"

text \<open>
  Modelled from the spec: \<^verbatim>\<open>Toolset\<close> and \<^verbatim>\<open>ToolsetConfig.Initialize\<close> (package \<^verbatim>\<open>tools\<close>,
  not among the sources). A toolset is "a named, ordered set of Tool references"; its
  constructor "resolves its tool-name list against the Tool map, failing fast on an
  unknown name". The error for an unknown name is the parameter \<open>unknown\<close>.
\<close>

record 'tool Toolset =
  toolset_Name :: string
  toolset_Tools :: "(string \<times> 'tool) list"

fun resolve_tools ::
  "(string \<Rightarrow> error) \<Rightarrow> 'tool gomap \<Rightarrow> string list \<Rightarrow> error + (string \<times> 'tool) list" where
  "resolve_tools unknown toolsMap [] = Inr []"
| "resolve_tools unknown toolsMap (n # ns) =
     (case DAList.lookup toolsMap n of
        None \<Rightarrow> Inl (unknown n)
      | Some t \<Rightarrow>
          (case resolve_tools unknown toolsMap ns of
             Inl err \<Rightarrow> Inl err
           | Inr ts \<Rightarrow> Inr ((n, t) # ts)))"

definition ToolsetConfig_Initialize ::
  "(string \<Rightarrow> error) \<Rightarrow> ToolsetConfig \<Rightarrow> string \<Rightarrow> 'tool gomap \<Rightarrow> error + 'tool Toolset" where
  "ToolsetConfig_Initialize unknown tc serverVersion toolsMap =
     (case resolve_tools unknown toolsMap (ToolNames tc) of
        Inl err \<Rightarrow> Inl err
      | Inr ts \<Rightarrow> Inr \<lparr>toolset_Name = Name tc, toolset_Tools = ts\<rparr>)"

section \<open>The authorization gate\<close>

text \<open>
  Modelled from the spec: the Auth Gate \<^verbatim>\<open>Authorize(tool, presentedCredentials)\<close> (the
  handlers that decide authorization are not among the sources). "If \<^verbatim>\<open>tool.AuthRequired\<close>
  is empty, the call is authorized unconditionally (claims empty). Otherwise, for each name
  in AuthRequired, if a credential matching that AuthService's expected identifier is
  present, verify it; the call succeeds (returns claims) on the first successful
  verification among the listed services. If no listed service's credential is present,
  or every presented credential fails verification, return a failure whose message text
  includes that auth is required for the tool. Verification failures from one service must
  not prevent trying the next."

  \<open>verify service token\<close> is \<^verbatim>\<open>verifier.Verify(token)\<close> of the named auth service
  (\<open>None\<close> when it fails); \<open>creds service\<close> is the credential presented for a service.
\<close>

datatype auth_error = AuthRequiredFor string

fun first_verified ::
  "(string \<Rightarrow> string \<Rightarrow> 'claims option) \<Rightarrow> (string \<Rightarrow> string option) \<Rightarrow> string list
     \<Rightarrow> (string \<times> 'claims) option" where
  "first_verified verify creds [] = None"
| "first_verified verify creds (n # ns) =
     (case creds n of
        None \<Rightarrow> first_verified verify creds ns
      | Some token \<Rightarrow>
          (case verify n token of
             Some claims \<Rightarrow> Some (n, claims)
           | None \<Rightarrow> first_verified verify creds ns))"

definition Authorize ::
  "(string \<Rightarrow> string \<Rightarrow> 'claims option) \<Rightarrow> 'src Tool \<Rightarrow> (string \<Rightarrow> string option)
     \<Rightarrow> auth_error + (string \<times> 'claims) list" where
  "Authorize verify t creds =
     (if tool_AuthRequired t = [] then Inr []
      else (case first_verified verify creds (tool_AuthRequired t) of
              Some c \<Rightarrow> Inr [c]
            | None \<Rightarrow> Inl (AuthRequiredFor (tool_Name t))))"

text \<open>
  Modelled from the spec: the credentials of a request, "extracted from headers named by
  convention (\<^verbatim>\<open><auth-service-name>_token\<close>)"; the MCP dispatcher "extracts the same shape
  of credentials from the transport's header/metadata carrier".
\<close>

definition credentials :: "(string \<times> string) list \<Rightarrow> string \<Rightarrow> string option" where
  "credentials headers service = map_of headers (service @ ''_token'')"

section \<open>The invocation pipeline\<close>

text \<open>
  Modelled from the spec: \<^verbatim>\<open>Invoke(tool, rawArguments, rawTemplateArguments)\<close> (not among
  the sources). "(1) validate rawArguments against \<^verbatim>\<open>tool.Parameters\<close>: every required
  parameter present, every value type-compatible; (2) if the tool declares
  TemplateParameters, validate rawTemplateArguments the same way and substitute them into
  the tool's operation template before execution; (3) delegate execution to the Tool's
  bound Source; (4) normalize the outcome to either a success value or a classified error
  (validation error vs execution error)." Parameters are validated in declaration order.

  What the specification leaves to "a Tool capability the core depends on" is a record of
  parameters: \<open>Verify\<close> (the auth services), \<open>Accepts\<close> (is a value compatible with a
  type), \<open>Execute\<close> (the bound source runs the statement with the template values and the
  bound values: the cause of a failure, or the result) and \<open>Describe\<close> (the text of a
  violation other than a missing parameter).
\<close>

datatype violation = Missing string | Incompatible string ptype

datatype invoke_error = ValidationError violation | ExecutionError string

record ('src, 'v, 'claims) capabilities =
  Verify :: "string \<Rightarrow> string \<Rightarrow> 'claims option"
  Accepts :: "ptype \<Rightarrow> 'v \<Rightarrow> bool"
  Execute :: "'src Tool \<Rightarrow> (string \<times> 'v) list \<Rightarrow> (string \<times> 'v) list \<Rightarrow> string + string"
  Describe :: "string \<Rightarrow> ptype \<Rightarrow> string"

fun bind_parameters ::
  "(ptype \<Rightarrow> 'v \<Rightarrow> bool) \<Rightarrow> Parameter list \<Rightarrow> (string \<Rightarrow> 'v option)
     \<Rightarrow> violation + (string \<times> 'v) list" where
  "bind_parameters accepts [] raw = Inr []"
| "bind_parameters accepts (p # ps) raw =
     (case raw (p_Name p) of
        None \<Rightarrow>
          (if p_Required p then Inl (Missing (p_Name p))
           else bind_parameters accepts ps raw)
      | Some v \<Rightarrow>
          (if accepts (p_Type p) v
           then (case bind_parameters accepts ps raw of
                   Inl e \<Rightarrow> Inl e
                 | Inr vs \<Rightarrow> Inr ((p_Name p, v) # vs))
           else Inl (Incompatible (p_Name p) (p_Type p))))"

definition Invoke ::
  "('src, 'v, 'claims) capabilities \<Rightarrow> 'src Tool \<Rightarrow> (string \<Rightarrow> 'v option)
     \<Rightarrow> (string \<Rightarrow> 'v option) \<Rightarrow> invoke_error + string" where
  "Invoke cap t rawArguments rawTemplateArguments =
     (case bind_parameters (Accepts cap) (tool_Parameters t) rawArguments of
        Inl v \<Rightarrow> Inl (ValidationError v)
      | Inr params \<Rightarrow>
          (case bind_parameters (Accepts cap) (tool_TemplateParameters t) rawTemplateArguments of
             Inl v \<Rightarrow> Inl (ValidationError v)
           | Inr templateParams \<Rightarrow>
               (case Execute cap t templateParams params of
                  Inl cause \<Rightarrow> Inl (ExecutionError cause)
                | Inr result \<Rightarrow> Inr result)))"

section \<open>The MCP method tools/call\<close>

text \<open>
  The request of the tests: \<^verbatim>\<open>mcp.JSONRPCRequest{Jsonrpc, Id, Request{Method}, Params}\<close>
  with \<^verbatim>\<open>Params = {"name": ..., "arguments": {...}}\<close>. An id is a JSON string or number.
\<close>

datatype request_id = IdString string | IdNumber int

record 'v JSONRPCRequest =
  req_Jsonrpc :: string
  req_Id :: request_id
  req_Method :: string
  req_Params_name :: string
  req_Params_arguments :: "(string \<times> 'v) list"

text \<open>
  The response the tests expect:
  \<^verbatim>\<open>{"jsonrpc":"2.0","id":...,"error":{"code":...,"message":...}}\<close>, or a result.
\<close>

datatype response_body = Result string | Error int string

record JSONRPCResponse =
  resp_jsonrpc :: string
  resp_id :: request_id
  resp_body :: response_body

text \<open>
  Modelled from the spec: the error codes, "-32600 invalid request, -32601 method not found,
  -32602 invalid params, -32603 internal error".
\<close>

definition INVALID_REQUEST :: int where "INVALID_REQUEST = - 32600"
definition METHOD_NOT_FOUND :: int where "METHOD_NOT_FOUND = - 32601"
definition INVALID_PARAMS :: int where "INVALID_PARAMS = - 32602"
definition INTERNAL_ERROR :: int where "INTERNAL_ERROR = - 32603"

text \<open>A name between double quotes, as the messages of the specification show it.\<close>

definition quoted :: "string \<Rightarrow> string" where
  "quoted s = [CHR 0x22] @ s @ [CHR 0x22]"

fun violation_text :: "(string \<Rightarrow> ptype \<Rightarrow> string) \<Rightarrow> violation \<Rightarrow> string" where
  "violation_text describe (Missing n) = ''parameter '' @ quoted n @ '' is required''"
| "violation_text describe (Incompatible n ty) = describe n ty"

definition NewError :: "request_id \<Rightarrow> int \<Rightarrow> string \<Rightarrow> JSONRPCResponse" where
  "NewError i code message =
     \<lparr>resp_jsonrpc = ''2.0'', resp_id = i, resp_body = Error code message\<rparr>"

text \<open>
  Modelled from the spec: the handler of \<^verbatim>\<open>tools/call\<close> (the dispatcher is not among the
  sources; the tests \<^verbatim>\<open>RunMCPToolCallMethod\<close> give requests and the responses expected).
  "Resolve the named tool in the live Tool map: unknown name, error code for invalid
  params, message \<^verbatim>\<open>invalid tool name: tool with name "<name>" does not exist\<close>; run Auth
  Gate: failure, error code for invalid request, message
  \<^verbatim>\<open>unauthorized Tool call: `authRequired` is set for the target Tool\<close>; run Invocation
  Pipeline: validation failure, error code for invalid params, message
  \<^verbatim>\<open>provided parameters were invalid: parameter "<name>" is required\<close> (or the equivalent
  per-violation message); execution failure, error code for internal error, with the
  underlying cause in the message. Every response carries exactly the id of its request."
  The arguments object serves as raw arguments and as raw template arguments.
\<close>

definition toolsCall ::
  "('src, 'v, 'claims) capabilities \<Rightarrow> 'src Tool gomap \<Rightarrow> (string \<times> string) list
     \<Rightarrow> 'v JSONRPCRequest \<Rightarrow> JSONRPCResponse" where
  "toolsCall cap toolsMap headers req =
     (case DAList.lookup toolsMap (req_Params_name req) of
        None \<Rightarrow>
          NewError (req_Id req) INVALID_PARAMS
            (''invalid tool name: tool with name '' @ quoted (req_Params_name req)
               @ '' does not exist'')
      | Some t \<Rightarrow>
          (case Authorize (Verify cap) t (credentials headers) of
             Inl err \<Rightarrow>
               NewError (req_Id req) INVALID_REQUEST
                 ''unauthorized Tool call: `authRequired` is set for the target Tool''
           | Inr claims \<Rightarrow>
               (case Invoke cap t (map_of (req_Params_arguments req))
                       (map_of (req_Params_arguments req)) of
                  Inl (ValidationError v) \<Rightarrow>
                    NewError (req_Id req) INVALID_PARAMS
                      (''provided parameters were invalid: ''
                         @ violation_text (Describe cap) v)
                | Inl (ExecutionError cause) \<Rightarrow> NewError (req_Id req) INTERNAL_ERROR cause
                | Inr result \<Rightarrow>
                    \<lparr>resp_jsonrpc = ''2.0'', resp_id = req_Id req,
                     resp_body = Result result\<rparr>)))"

section \<open>Examples\<close>

text \<open>A server that is listening.\<close>

definition listening_server :: "(unit, unit, unit, unit) Server" where
  "listening_server =
     \<lparr>version = ''0.0.0'', srv_Addr = ''127.0.0.1:5000'',
      listener = Some \<lparr>Addr = ''127.0.0.1:5000''\<rparr>,
      sources = DAList.empty, authServices = DAList.empty, tools = DAList.empty,
      toolsets = DAList.empty\<rparr>"

text \<open>
  An environment in which nothing outside \<^verbatim>\<open>NewServer\<close> fails, with the toolset
  constructor above, and the configuration of \<^verbatim>\<open>TestParseFromYamlBigtable\<close>: one tool
  \<^verbatim>\<open>example_tool\<close> on the source \<^verbatim>\<open>my-pg-instance\<close>. \<open>example_config src ts\<close> declares one
  source named \<open>src\<close> and one toolset named \<open>ts\<close> that lists a tool that does not exist.
\<close>

definition example_env :: "(string, unit, string Tool, string Tool Toolset) environment" where
  "example_env =
     \<lparr>CreateTelemetryInstrumentation = (\<lambda>v. None),
      SeverityToLevel = (\<lambda>l. None),
      ToolsetInitialize =
        ToolsetConfig_Initialize (\<lambda>n. ErrorNew (''tool does not exist: '' @ n)),
      JoinHostPort = (\<lambda>h p. h @ '':5000''),
      apiRouter = (\<lambda>s. None),
      mcpRouter = (\<lambda>s. None),
      range_rank = (\<lambda>i k. 0)\<rparr>"

definition example_tool :: Config where
  "example_tool =
     \<lparr>cfg_Name = ''example_tool'', cfg_Kind = ''bigtable-sql'',
      cfg_Source = ''my-pg-instance'', cfg_Description = ''some description'',
      cfg_Statement = ''SELECT * FROM SQL_STATEMENT;'' @ [CHR 0x0A], cfg_AuthRequired = [],
      cfg_Parameters =
        [\<lparr>p_Name = ''country'', p_Type = TString, p_Description = ''some description'',
          p_Required = True\<rparr>],
      cfg_TemplateParameters = []\<rparr>"

text \<open>
  The error of a tool constructor whose source is not in the map, and the tool the
  constructor builds from \<open>example_tool\<close> on a source \<^verbatim>\<open>client\<close>. The names of the
  examples have no character that \<^verbatim>\<open>strconv.Quote\<close> escapes, so for them \<^verbatim>\<open>%q\<close> is the name
  between double quotes, \<open>quoted\<close>.
\<close>

definition no_source :: "string \<Rightarrow> error" where
  "no_source n = ErrorNew (''no source named '' @ quoted n @ '' configured'')"

definition example_live_tool :: "string Tool" where
  "example_live_tool =
     \<lparr>tool_Name = ''example_tool'', tool_Kind = ''bigtable-sql'',
      tool_Description = ''some description'',
      tool_Statement = ''SELECT * FROM SQL_STATEMENT;'' @ [CHR 0x0A],
      tool_Parameters =
        [\<lparr>p_Name = ''country'', p_Type = TString, p_Description = ''some description'',
          p_Required = True\<rparr>],
      tool_TemplateParameters = [], tool_AuthRequired = [], tool_Source = ''client''\<rparr>"

definition example_config ::
  "string \<Rightarrow> string \<Rightarrow> (string, unit, string Tool) ServerConfig" where
  "example_config src ts =
     \<lparr>Version = ''0.0.0'', Address = ''127.0.0.1'', Port = 5000,
      LogLevel = ''info'', LoggingFormat = ''standard'',
      SourceConfigs =
        DAList.update src \<lparr>SourceConfigKind = ''bigtable'', sc_Initialize = Inr ''client''\<rparr>
          DAList.empty,
      AuthServiceConfigs = DAList.empty,
      ToolConfigs =
        DAList.update ''example_tool'' (ToolConfig_of no_source example_tool) DAList.empty,
      ToolsetConfigs =
        Some (DAList.update ts \<lparr>Name = ts, ToolNames = [''no_such_tool'']\<rparr> DAList.empty)\<rparr>"

text \<open>
  The tools of the tests \<^verbatim>\<open>RunMCPToolCallMethod\<close>: \<^verbatim>\<open>my-param-tool\<close> with the parameters
  \<^verbatim>\<open>id\<close> and \<^verbatim>\<open>name\<close>, and \<^verbatim>\<open>my-auth-required-tool\<close>, which requires the auth service
  \<^verbatim>\<open>my-google-auth\<close>.
\<close>

datatype json = JString string | JNumber int | JBool bool

fun json_accepts :: "ptype \<Rightarrow> json \<Rightarrow> bool" where
  "json_accepts TString (JString s) = True"
| "json_accepts TInteger (JNumber n) = True"
| "json_accepts TBoolean (JBool b) = True"
| "json_accepts ty v = False"

definition test_capabilities :: "(string, json, string) capabilities" where
  "test_capabilities =
     \<lparr>Verify = (\<lambda>service token.
         if service = ''my-google-auth'' \<and> token = ''ID_TOKEN'' then Some ''claims''
         else None),
      Accepts = json_accepts,
      Execute = (\<lambda>t templateParams params. Inr ''[]''),
      Describe = (\<lambda>n ty. ''parameter '' @ quoted n @ '' has the wrong type'')\<rparr>"

definition test_tool :: "string \<Rightarrow> string list \<Rightarrow> Parameter list \<Rightarrow> string Tool" where
  "test_tool n auth ps =
     \<lparr>tool_Name = n, tool_Kind = ''postgres-sql'', tool_Description = ''a tool of the tests'',
      tool_Statement = ''SELECT 1;'', tool_Parameters = ps, tool_TemplateParameters = [],
      tool_AuthRequired = auth, tool_Source = ''client''\<rparr>"

definition id_parameter :: Parameter where
  "id_parameter =
     \<lparr>p_Name = ''id'', p_Type = TInteger, p_Description = ''user ID'', p_Required = True\<rparr>"

definition name_parameter :: Parameter where
  "name_parameter =
     \<lparr>p_Name = ''name'', p_Type = TString, p_Description = ''user name'', p_Required = True\<rparr>"

definition test_tools :: "string Tool gomap" where
  "test_tools =
     DAList.update ''my-param-tool''
       (test_tool ''my-param-tool'' [] [id_parameter, name_parameter])
     (DAList.update ''my-auth-required-tool''
       (test_tool ''my-auth-required-tool'' [''my-google-auth''] [])
      DAList.empty)"

definition test_request :: "string \<Rightarrow> string \<Rightarrow> (string \<times> json) list \<Rightarrow> json JSONRPCRequest" where
  "test_request i n args =
     \<lparr>req_Jsonrpc = ''2.0'', req_Id = IdString i, req_Method = ''tools/call'',
      req_Params_name = n, req_Params_arguments = args\<rparr>"

text \<open>A tool that accepts either of two auth services.\<close>

definition two_services_tool :: "string Tool" where
  "two_services_tool = test_tool ''my-tool'' [''svcA'', ''svcB''] []"

lemmas example_defs =
  DAList.update.rep_eq DAList.empty.rep_eq DAList.lookup_update go_range_def keys_def
  initSources_def initAuthServices_def initTools_def initToolsets_def httpSetup_def
  withDefaultToolset_def NewServer_def example_env_def example_config_def ToolConfig_of_def
  Config_Initialize_def ToolsetConfig_Initialize_def example_tool_def example_live_tool_def
  no_source_def Let_def

lemmas test_defs =
  DAList.lookup_update test_tools_def test_tool_def test_request_def test_capabilities_def
  id_parameter_def name_parameter_def two_services_tool_def credentials_def Authorize_def

section \<open>Listen succeeds at most once\<close>

lemma call_method_keeps_listener:
  "listener s = Some l \<Longrightarrow> listener (fst (call_method c s)) = Some l"
  by (cases c) (simp_all add: Listen_def Serve_def Shutdown_def)

lemma listens_ok_listening:
  "listener s = Some l \<Longrightarrow> listens_ok s cs = 0"
proof (induction cs arbitrary: s)
  case Nil
  show ?case by simp
next
  case (Cons c cs)
  obtain s' r where step: "call_method c s = (s', r)"
    by (cases "call_method c s")
  from Cons.prems have "listener s' = Some l"
    using call_method_keeps_listener [of s l c] step by simp
  then have rest: "listens_ok s' cs = 0"
    by (rule Cons.IH)
  have "r \<noteq> None" if "c = CallListen net" for net
    using that step Cons.prems by (auto simp: Listen_def)
  then show ?case
    using step rest by (cases c) simp_all
qed

lemma Listen_success_sets_listener:
  "Listen net s = (s', None) \<Longrightarrow> \<exists>l. listener s' = Some l"
  by (auto simp: Listen_def split: option.splits sum.splits)

lemma listens_ok_le_1: "listens_ok s cs \<le> 1"
proof (induction cs arbitrary: s)
  case Nil
  show ?case by simp
next
  case (Cons c cs)
  obtain s' r where step: "call_method c s = (s', r)"
    by (cases "call_method c s")
  show ?case
  proof (cases "\<exists>net. c = CallListen net \<and> r = None")
    case True
    then obtain net where c: "c = CallListen net" and r: "r = None"
      by blast
    from step c r obtain l where "listener s' = Some l"
      using Listen_success_sets_listener [of net s s'] by auto
    then have "listens_ok s' cs = 0"
      by (rule listens_ok_listening)
    then show ?thesis
      using step c r by simp
  next
    case False
    then have "listens_ok s (c # cs) = listens_ok s' cs"
      using step by (cases c) auto
    then show ?thesis
      using Cons.IH [of s'] by simp
  qed
qed

text \<open>
  C9. \<^verbatim>\<open>Listen\<close> on a server whose listener is set returns the error
  "server is already listening: <address>" and leaves the server, its listener included,
  as it was; and in any history of calls on one server instance, from any state, at most
  one call of \<^verbatim>\<open>Listen\<close> succeeds.
\<close>

theorem Listen_at_most_once:
  "(listener s = Some l \<longrightarrow>
      Listen net s = (s, Some (AlreadyListening (Addr l)))
    \<and> prefix ''server is already listening'' (error_string q (AlreadyListening (Addr l))))
   \<and> listens_ok s calls \<le> 1"
  using listens_ok_le_1 [of s calls] by (simp add: Listen_def)

theorem Listen_at_most_once_witness:
  "listener listening_server = Some \<lparr>Addr = ''127.0.0.1:5000''\<rparr>
   \<and> Listen (\<lambda>a. Inr \<lparr>Addr = a\<rparr>) listening_server
       = (listening_server, Some (AlreadyListening ''127.0.0.1:5000''))
   \<and> prefix ''server is already listening''
        (error_string id (AlreadyListening ''127.0.0.1:5000''))
   \<and> listens_ok listening_server
        [CallListen (\<lambda>a. Inr \<lparr>Addr = a\<rparr>), CallShutdown None,
         CallListen (\<lambda>a. Inr \<lparr>Addr = a\<rparr>)] \<le> 1"
proof -
  have l: "listener listening_server = Some \<lparr>Addr = ''127.0.0.1:5000''\<rparr>"
    by (simp add: listening_server_def)
  show ?thesis
    using l Listen_at_most_once [of listening_server "\<lparr>Addr = ''127.0.0.1:5000''\<rparr>"
      "\<lambda>a. Inr \<lparr>Addr = a\<rparr>" id
      "[CallListen (\<lambda>a. Inr \<lparr>Addr = a\<rparr>), CallShutdown None,
        CallListen (\<lambda>a. Inr \<lparr>Addr = a\<rparr>)]"]
    by (simp del: listens_ok.simps error_string.simps)
qed

section \<open>The build of the registry\<close>

subsection \<open>Maps and the loop\<close>

lemma keys_empty: "keys DAList.empty = []"
  by (simp add: keys_def DAList.empty.rep_eq)

lemma set_keys_update: "set (keys (DAList.update k v m)) = insert k (set (keys m))"
  using dom_update [of k v "DAList.impl_of m"]
  by (simp add: keys_def DAList.update.rep_eq)

lemma set_go_range: "set (go_range rank m) = set (DAList.impl_of m)"
  by (simp add: go_range_def)

lemma distinct_fst_insort_key:
  "distinct (map fst (insort_key f x xs)) = distinct (map fst (x # xs))"
  by (induction xs) (auto simp: set_insort_key)

lemma distinct_fst_sort_key:
  "distinct (map fst (sort_key f xs)) = distinct (map fst xs)"
  by (induction xs) (simp_all add: distinct_fst_insort_key)

lemma distinct_go_range: "distinct (map fst (go_range rank m))"
  by (simp add: go_range_def distinct_fst_sort_key)

lemma position_Cons: "position (k # ks) k' = (if k = k' then 0 else Suc (position ks k'))"
  by (simp add: position_def)

lemma map_position_Cons:
  assumes "k \<notin> set ks"
  shows "map (position (k # ks)) ks = map Suc (map (position ks) ks)"
proof -
  have "position (k # ks) x = Suc (position ks x)" if "x \<in> set ks" for x
    using that assms by (auto simp only: position_Cons split: if_splits)
  then show ?thesis
    by (simp only: map_map comp_def map_eq_conv) blast
qed

lemma map_position: "distinct ks \<Longrightarrow> map (position ks) ks = [0..<length ks]"
proof (induction ks)
  case Nil
  show ?case by simp
next
  case (Cons k ks)
  from Cons.prems have k: "k \<notin> set ks" and d: "distinct ks"
    by simp_all
  have "map (position (k # ks)) (k # ks) = 0 # map Suc (map (position ks) ks)"
    using map_position_Cons [OF k] by (simp add: position_Cons)
  also have "\<dots> = 0 # map Suc [0..<length ks]"
    using Cons.IH [OF d] by simp
  also have "\<dots> = [0..<length (k # ks)]"
  proof -
    have "[0..<Suc (length ks)] = 0 # [Suc 0..<Suc (length ks)]"
      by (rule upt_conv_Cons) simp
    then show ?thesis
      by (simp add: map_Suc_upt del: upt_Suc)
  qed
  finally show ?case .
qed

lemma go_range_fst: "go_range rank m = sort_key (rank \<circ> fst) (DAList.impl_of m)"
  by (simp add: go_range_def case_prod_unfold comp_def)

lemma go_range_any_order:
  assumes "distinct (map fst xs)" and "set xs = set (DAList.impl_of m)"
  shows "\<exists>rank. go_range rank m = xs"
proof
  let ?ks = "map fst xs"
  let ?ys = "DAList.impl_of m"
  let ?f = "position ?ks \<circ> fst"
  have "map ?f xs = map (position ?ks) ?ks"
    by (simp only: map_map)
  then have f: "map ?f xs = [0..<length xs]"
    using map_position [OF assms(1)] by (simp only: length_map)
  have sx: "sorted (map ?f xs)" and dx: "distinct (map ?f xs)"
    unfolding f by simp_all
  from dx have inj: "inj_on ?f (set xs)"
    using distinct_map [of ?f xs] by blast
  have "distinct (map fst ?ys)"
    by (rule DAList.impl_of_distinct)
  then have dy: "distinct ?ys"
    using distinct_map [of fst ?ys] by blast
  have "distinct (sort_key ?f ?ys)"
    using dy by (simp only: distinct_sort)
  moreover have "inj_on ?f (set (sort_key ?f ?ys))"
    using inj assms(2) by (simp only: set_sort)
  ultimately have ds: "distinct (map ?f (sort_key ?f ?ys))"
    using distinct_map [of ?f "sort_key ?f ?ys"] by blast
  have ss: "sorted (map ?f (sort_key ?f ?ys))"
    by (rule sorted_sort_key)
  have "inj_on ?f (set (sort_key ?f ?ys) \<union> set xs)"
    using inj assms(2) by (simp only: set_sort Un_absorb)
  from map_sorted_distinct_set_unique [OF this ss ds sx dx]
  have "sort_key ?f ?ys = xs"
    using assms(2) by (simp only: set_sort)
  then show "go_range (position ?ks) m = xs"
    by (simp only: go_range_fst)
qed

lemma in_range_lookup:
  "(k, v) \<in> set (go_range rank m) \<longleftrightarrow> DAList.lookup m k = Some v"
  by (simp add: set_go_range DAList.lookup.rep_eq)

lemma range_init_events:
  "range_init span init wrap xs m = (evs, r) \<Longrightarrow> set evs \<subseteq> span ` fst ` set xs"
proof (induction xs arbitrary: m evs r)
  case Nil
  then show ?case by simp
next
  case (Cons x xs)
  obtain n c where x: "x = (n, c)" by (cases x)
  show ?case
  proof (cases "init c")
    case (Inl err)
    with Cons.prems x show ?thesis by auto
  next
    case (Inr a)
    obtain evs' r' where rest: "range_init span init wrap xs (DAList.update n a m) = (evs', r')"
      by (cases "range_init span init wrap xs (DAList.update n a m)")
    from Cons.IH [OF rest] Cons.prems x Inr rest show ?thesis by auto
  qed
qed

lemma range_init_Inr:
  "range_init span init wrap xs m = (evs, Inr m') \<Longrightarrow>
     evs = map (span \<circ> fst) xs
   \<and> set (keys m') = set (keys m) \<union> fst ` set xs
   \<and> (\<forall>(n, c) \<in> set xs. \<exists>a. init c = Inr a)"
proof (induction xs arbitrary: m evs)
  case Nil
  then show ?case by simp
next
  case (Cons x xs)
  obtain n c where x: "x = (n, c)" by (cases x)
  from Cons.prems x obtain a where a: "init c = Inr a"
    by (cases "init c") auto
  obtain evs' r' where rest: "range_init span init wrap xs (DAList.update n a m) = (evs', r')"
    by (cases "range_init span init wrap xs (DAList.update n a m)")
  from Cons.prems x a rest have r': "r' = Inr m'" and evs: "evs = span n # evs'"
    by auto
  from Cons.IH [OF rest [unfolded r']] show ?case
    using x a evs by (auto simp: set_keys_update)
qed

lemma range_init_Inl:
  "range_init span init wrap xs m = (evs, Inl e) \<Longrightarrow>
     \<exists>n c err. (n, c) \<in> set xs \<and> init c = Inl err \<and> e = wrap n err"
proof (induction xs arbitrary: m evs)
  case Nil
  then show ?case by simp
next
  case (Cons x xs)
  obtain n c where x: "x = (n, c)" by (cases x)
  show ?case
  proof (cases "init c")
    case (Inl err)
    with Cons.prems x show ?thesis by auto
  next
    case (Inr a)
    obtain evs' r' where rest: "range_init span init wrap xs (DAList.update n a m) = (evs', r')"
      by (cases "range_init span init wrap xs (DAList.update n a m)")
    from Cons.prems x Inr rest have "r' = Inl e" by auto
    from Cons.IH [OF rest [unfolded this]] show ?thesis by auto
  qed
qed

lemma range_init_lookup_other:
  "range_init span init wrap xs m = (evs, Inr m') \<Longrightarrow> k \<notin> fst ` set xs \<Longrightarrow>
     DAList.lookup m' k = DAList.lookup m k"
proof (induction xs arbitrary: m evs)
  case Nil
  then show ?case by simp
next
  case (Cons x xs)
  obtain n c where x: "x = (n, c)" by (cases x)
  from Cons.prems x obtain a where a: "init c = Inr a"
    by (cases "init c") auto
  obtain evs' r' where rest: "range_init span init wrap xs (DAList.update n a m) = (evs', r')"
    by (cases "range_init span init wrap xs (DAList.update n a m)")
  from Cons.prems x a rest have r': "r' = Inr m'" by auto
  from Cons.prems x have "k \<notin> fst ` set xs" "k \<noteq> n" by auto
  with Cons.IH [OF rest [unfolded r']] show ?case
    by (simp add: DAList.lookup_update)
qed

lemma range_init_lookup:
  "range_init span init wrap xs m = (evs, Inr m') \<Longrightarrow> distinct (map fst xs) \<Longrightarrow>
     (n, c) \<in> set xs \<Longrightarrow> \<exists>a. init c = Inr a \<and> DAList.lookup m' n = Some a"
proof (induction xs arbitrary: m evs)
  case Nil
  then show ?case by simp
next
  case (Cons x xs)
  obtain n0 c0 where x: "x = (n0, c0)" by (cases x)
  from Cons.prems x obtain a where a: "init c0 = Inr a"
    by (cases "init c0") auto
  obtain evs' r' where rest: "range_init span init wrap xs (DAList.update n0 a m) = (evs', r')"
    by (cases "range_init span init wrap xs (DAList.update n0 a m)")
  from Cons.prems x a rest have r': "r' = Inr m'" by auto
  note rest' = rest [unfolded r']
  show ?case
  proof (cases "(n, c) = (n0, c0)")
    case True
    from Cons.prems(2) x have "n0 \<notin> fst ` set xs" by auto
    from range_init_lookup_other [OF rest' this] True a show ?thesis
      by (simp add: DAList.lookup_update)
  next
    case False
    with Cons.prems x have "(n, c) \<in> set xs" "distinct (map fst xs)" by auto
    with Cons.IH [OF rest'] show ?thesis by blast
  qed
qed

lemma range_init_fails:
  "(n, c) \<in> set xs \<Longrightarrow> init c = Inl err \<Longrightarrow>
     \<exists>evs e. range_init span init wrap xs m = (evs, Inl e)"
proof -
  assume a: "(n, c) \<in> set xs" "init c = Inl err"
  obtain evs r where r: "range_init span init wrap xs m = (evs, r)"
    by (cases "range_init span init wrap xs m")
  show ?thesis
  proof (cases r)
    case (Inl e)
    with r show ?thesis by blast
  next
    case (Inr m')
    from range_init_Inr [OF r [unfolded Inr]] a show ?thesis by fastforce
  qed
qed

lemma range_init_visited_fails:
  assumes "range_init span init wrap xs m = (evs, r)"
    and "inj span" and "distinct (map fst xs)"
    and "(n, c) \<in> set xs" and "span n \<in> set evs" and "init c = Inl e"
  shows "r = Inl (wrap n e)"
  using assms(1,3,4,5)
proof (induction xs arbitrary: m evs)
  case Nil
  then show ?case by simp
next
  case (Cons x xs)
  obtain n0 c0 where x: "x = (n0, c0)" by (cases x)
  show ?case
  proof (cases "init c0")
    case (Inl err)
    with Cons.prems(1) x have evs: "evs = [span n0]" and r: "r = Inl (wrap n0 err)"
      by auto
    from evs Cons.prems(4) assms(2) have "n = n0"
      by (auto dest: injD)
    with Cons.prems(2,3) x have "c = c0"
      by (auto simp: image_iff)
    with Inl assms(6) r \<open>n = n0\<close> show ?thesis by simp
  next
    case (Inr a)
    obtain evs' r' where rest: "range_init span init wrap xs (DAList.update n0 a m) = (evs', r')"
      by (cases "range_init span init wrap xs (DAList.update n0 a m)")
    from Cons.prems(1) x Inr rest have r': "r' = r" and evs: "evs = span n0 # evs'"
      by auto
    have ne: "n \<noteq> n0"
    proof
      assume "n = n0"
      with Cons.prems(2,3) x have "c = c0"
        by (auto simp: image_iff)
      with Inr assms(6) show False by simp
    qed
    with Cons.prems(3) x have in_rest: "(n, c) \<in> set xs" by auto
    from ne evs Cons.prems(4) assms(2) have "span n \<in> set evs'"
      by (auto dest: injD)
    from Cons.IH [OF rest [unfolded r'] _ in_rest this] Cons.prems(2) show ?thesis
      by simp
  qed
qed

lemma set_keys_go_range: "fst ` set (go_range rank m) = set (keys m)"
  by (simp add: set_go_range keys_def)

subsection \<open>The phases of NewServer\<close>

lemma NewServer_Inr:
  assumes "NewServer env cfg = (evs, Inr srv)"
  shows "\<exists>ev1 ev2 ev3 ev4.
           httpSetup env cfg = None
         \<and> initSources env cfg = (ev1, Inr (sources srv))
         \<and> initAuthServices env cfg = (ev2, Inr (authServices srv))
         \<and> initTools env cfg (sources srv) = (ev3, Inr (tools srv))
         \<and> initToolsets env cfg (tools srv) = (ev4, Inr (toolsets srv))
         \<and> evs = ev1 @ ev2 @ ev3 @ ev4"
  using assms unfolding NewServer_def Let_def
  by (auto split: option.splits prod.splits sum.splits)

lemma NewServer_reaches_tools:
  assumes "httpSetup env cfg = None"
    and "initSources env cfg = (ev1, Inr srcs)"
    and "initAuthServices env cfg = (ev2, Inr auths)"
    and "initTools env cfg srcs = (ev3, Inl err)"
  shows "NewServer env cfg = (ev1 @ ev2 @ ev3, Inl err)"
  using assms by (simp add: NewServer_def)

lemma NewServer_reaches_toolsets:
  assumes "httpSetup env cfg = None"
    and "initSources env cfg = (ev1, Inr srcs)"
    and "initAuthServices env cfg = (ev2, Inr auths)"
    and "initTools env cfg srcs = (ev3, Inr tls)"
    and "initToolsets env cfg tls = (ev4, Inl err)"
  shows "NewServer env cfg = (ev1 @ ev2 @ ev3 @ ev4, Inl err)"
  using assms by (simp add: NewServer_def)

lemma NewServer_trace:
  assumes "NewServer env cfg = (evs, res)"
  shows "\<exists>ev1 ev2 ev3 ev4 r1.
           evs = ev1 @ ev2 @ ev3 @ ev4
         \<and> (evs \<noteq> [] \<longrightarrow> initSources env cfg = (ev1, r1))
         \<and> (\<forall>e \<in> set ev2. \<exists>n. e = AuthServiceInit n)
         \<and> (ev3 @ ev4 \<noteq> [] \<longrightarrow>
               (\<exists>srcs r3. r1 = Inr srcs \<and> initTools env cfg srcs = (ev3, r3)
                  \<and> (ev4 \<noteq> [] \<longrightarrow>
                       (\<exists>tls r4. r3 = Inr tls \<and> initToolsets env cfg tls = (ev4, r4)))))"
proof (cases "httpSetup env cfg")
  case (Some err)
  with assms have "evs = []" by (simp add: NewServer_def)
  then show ?thesis by simp
next
  case None
  obtain ev1 r1 where s: "initSources env cfg = (ev1, r1)"
    by (cases "initSources env cfg")
  show ?thesis
  proof (cases r1)
    case (Inl err)
    with assms None s have "evs = ev1 @ [] @ [] @ []" by (simp add: NewServer_def)
    with s show ?thesis by (intro exI [of _ ev1] exI [of _ "[]"] exI [of _ r1]) simp
  next
    case srcs: (Inr srcs)
    obtain ev2 r2 where a: "initAuthServices env cfg = (ev2, r2)"
      by (cases "initAuthServices env cfg")
    have ev2: "\<forall>e \<in> set ev2. \<exists>n. e = AuthServiceInit n"
      using range_init_events [OF a [unfolded initAuthServices_def]] by auto
    show ?thesis
    proof (cases r2)
      case (Inl err)
      with assms None s srcs a have "evs = ev1 @ ev2 @ [] @ []" by (simp add: NewServer_def)
      with s ev2 show ?thesis
        by (intro exI [of _ ev1] exI [of _ ev2] exI [of _ "[]"] exI [of _ r1]) simp
    next
      case auths: (Inr auths)
      obtain ev3 r3 where t: "initTools env cfg srcs = (ev3, r3)"
        by (cases "initTools env cfg srcs")
      show ?thesis
      proof (cases r3)
        case (Inl err)
        with assms None s srcs a auths t have "evs = ev1 @ ev2 @ ev3 @ []"
          by (simp add: NewServer_def)
        with s ev2 srcs t show ?thesis
          by (intro exI [of _ ev1] exI [of _ ev2] exI [of _ ev3] exI [of _ "[]"] exI [of _ r1])
            simp
      next
        case tls: (Inr tls)
        obtain ev4 r4 where ts: "initToolsets env cfg tls = (ev4, r4)"
          by (cases "initToolsets env cfg tls")
        from assms None s srcs a auths t tls ts have "evs = ev1 @ ev2 @ ev3 @ ev4"
          by (auto simp: NewServer_def Let_def split: sum.splits option.splits)
        with s ev2 srcs t tls ts show ?thesis
          by (intro exI [of _ ev1] exI [of _ ev2] exI [of _ ev3] exI [of _ ev4] exI [of _ r1])
            simp
      qed
    qed
  qed
qed

lemma range_init_all_ok:
  assumes "range_init span init wrap (go_range rank cs) m = (evs, Inr m')"
    and "DAList.lookup cs n = Some c"
  shows "\<exists>x. init c = Inr x"
proof -
  from assms(2) have "(n, c) \<in> set (go_range rank cs)"
    by (simp add: in_range_lookup)
  with range_init_Inr [OF assms(1)] show ?thesis by blast
qed

lemma range_init_results:
  assumes "range_init span init wrap (go_range rank cs) DAList.empty = (evs, Inr m')"
  shows "DAList.lookup cs n = Some c \<Longrightarrow>
           span n \<in> set evs \<and> (\<exists>a. init c = Inr a \<and> DAList.lookup m' n = Some a)"
    and "DAList.lookup cs n = None \<Longrightarrow> DAList.lookup m' n = None"
proof -
  assume c: "DAList.lookup cs n = Some c"
  then have i: "(n, c) \<in> set (go_range rank cs)"
    by (simp add: in_range_lookup)
  from range_init_Inr [OF assms] have "evs = map (span \<circ> fst) (go_range rank cs)"
    by blast
  with i have "span n \<in> set evs"
    by force
  moreover from range_init_lookup [OF assms distinct_go_range i]
  have "\<exists>a. init c = Inr a \<and> DAList.lookup m' n = Some a" .
  ultimately show "span n \<in> set evs \<and> (\<exists>a. init c = Inr a \<and> DAList.lookup m' n = Some a)"
    by blast
next
  assume "DAList.lookup cs n = None"
  then have "n \<notin> fst ` set (go_range rank cs)"
    by (simp add: set_go_range DAList.lookup.rep_eq map_of_eq_None_iff)
  from range_init_lookup_other [OF assms this] show "DAList.lookup m' n = None"
    by simp
qed

lemma initSources_events:
  assumes "initSources env cfg = (ev1, r1)"
  shows "\<forall>e \<in> set ev1. \<exists>n. e = SourceInit n"
  using range_init_events [OF assms [unfolded initSources_def]] by auto

lemma initAuthServices_events:
  assumes "initAuthServices env cfg = (ev2, r2)"
  shows "\<forall>e \<in> set ev2. \<exists>n. e = AuthServiceInit n"
  using range_init_events [OF assms [unfolded initAuthServices_def]] by auto

lemma range_init_Inr_keys:
  assumes "range_init span init wrap (go_range rank cs) DAList.empty = (evs, Inr m')"
  shows "set (keys m') = set (keys cs)" and "\<forall>n \<in> set (keys m'). span n \<in> set evs"
proof -
  note r = range_init_Inr [OF assms]
  from r show k: "set (keys m') = set (keys cs)"
    by (simp add: keys_empty set_keys_go_range)
  from r have "set evs = span ` fst ` set (go_range rank cs)"
    by (simp add: image_comp)
  with k show "\<forall>n \<in> set (keys m'). span n \<in> set evs"
    by (simp add: set_keys_go_range)
qed

lemma initSources_Inr:
  assumes "initSources env cfg = (ev1, Inr srcs)"
  shows "set (keys srcs) = set (keys (SourceConfigs cfg))"
    and "\<forall>m \<in> set (keys srcs). SourceInit m \<in> set ev1"
  using range_init_Inr_keys [OF assms [unfolded initSources_def]] by auto

lemma initTools_events:
  assumes "initTools env cfg srcs = (ev3, r3)"
  shows "\<forall>e \<in> set ev3. \<exists>n. e = ToolInit n srcs"
  using range_init_events [OF assms [unfolded initTools_def]] by auto

lemma initTools_Inr:
  assumes "initTools env cfg srcs = (ev3, Inr tls)"
  shows "set (keys tls) = set (keys (ToolConfigs cfg))"
    and "\<forall>m \<in> set (keys tls). ToolInit m srcs \<in> set ev3"
  using range_init_Inr_keys [OF assms [unfolded initTools_def]] by auto

lemma initToolsets_events:
  assumes "initToolsets env cfg tls = (ev4, r4)"
  shows "\<forall>e \<in> set ev4. \<exists>n. e = ToolsetInit n tls"
  using range_init_events [OF assms [unfolded initToolsets_def]] by auto

lemma sorted_const_phase: "\<forall>e \<in> set xs. phase e = k \<Longrightarrow> sorted (map phase xs)"
  by (induction xs) auto

lemma NewServer_phases_sorted:
  assumes "NewServer env cfg = (evs, res)"
  shows "sorted (map phase evs)"
proof -
  from NewServer_trace [OF assms] obtain ev1 ev2 ev3 ev4 r1 where
    evs: "evs = ev1 @ ev2 @ ev3 @ ev4"
    and s: "evs \<noteq> [] \<longrightarrow> initSources env cfg = (ev1, r1)"
    and a: "\<forall>e \<in> set ev2. \<exists>n. e = AuthServiceInit n"
    and t: "ev3 @ ev4 \<noteq> [] \<longrightarrow>
               (\<exists>srcs r3. r1 = Inr srcs \<and> initTools env cfg srcs = (ev3, r3)
                  \<and> (ev4 \<noteq> [] \<longrightarrow>
                       (\<exists>tls r4. r3 = Inr tls \<and> initToolsets env cfg tls = (ev4, r4))))"
    by blast
  have p1: "\<forall>e \<in> set ev1. phase e = 0"
  proof (cases "evs = []")
    case True
    with evs show ?thesis by simp
  next
    case False
    with s initSources_events [of env cfg ev1 r1] show ?thesis by auto
  qed
  have p2: "\<forall>e \<in> set ev2. phase e = 1"
    using a by auto
  have p3: "\<forall>e \<in> set ev3. phase e = 2"
  proof (cases "ev3 = []")
    case True
    then show ?thesis by simp
  next
    case False
    with t obtain srcs r3 where "initTools env cfg srcs = (ev3, r3)" by auto
    from initTools_events [OF this] show ?thesis by auto
  qed
  have p4: "\<forall>e \<in> set ev4. phase e = 3"
  proof (cases "ev4 = []")
    case True
    then show ?thesis by simp
  next
    case False
    with t obtain tls r4 where "initToolsets env cfg tls = (ev4, r4)" by auto
    from initToolsets_events [OF this] show ?thesis by auto
  qed
  show ?thesis
    unfolding evs map_append
    using p1 p2 p3 p4
      sorted_const_phase [of ev1 0] sorted_const_phase [of ev2 1]
      sorted_const_phase [of ev3 2] sorted_const_phase [of ev4 3]
    by (auto simp: sorted_append)
qed

lemma NewServer_tool_sees_sources:
  assumes "NewServer env cfg = (evs, res)" and "ToolInit n srcs \<in> set evs"
  shows "\<exists>ev1. initSources env cfg = (ev1, Inr srcs) \<and> set ev1 \<subseteq> set evs"
proof -
  from NewServer_trace [OF assms(1)] obtain ev1 ev2 ev3 ev4 r1 where
    evs: "evs = ev1 @ ev2 @ ev3 @ ev4"
    and s: "evs \<noteq> [] \<longrightarrow> initSources env cfg = (ev1, r1)"
    and a: "\<forall>e \<in> set ev2. \<exists>n. e = AuthServiceInit n"
    and t: "ev3 @ ev4 \<noteq> [] \<longrightarrow>
               (\<exists>srcs r3. r1 = Inr srcs \<and> initTools env cfg srcs = (ev3, r3)
                  \<and> (ev4 \<noteq> [] \<longrightarrow>
                       (\<exists>tls r4. r3 = Inr tls \<and> initToolsets env cfg tls = (ev4, r4))))"
    by blast
  from assms(2) have ne: "evs \<noteq> []" by auto
  with s have s': "initSources env cfg = (ev1, r1)" by simp
  have not1: "ToolInit n srcs \<notin> set ev1"
    using initSources_events [OF s'] by auto
  have not2: "ToolInit n srcs \<notin> set ev2"
    using a by auto
  have not4: "ToolInit n srcs \<notin> set ev4"
  proof (cases "ev4 = []")
    case True
    then show ?thesis by simp
  next
    case False
    with t obtain tls r4 where "initToolsets env cfg tls = (ev4, r4)" by auto
    from initToolsets_events [OF this] show ?thesis by auto
  qed
  from assms(2) evs not1 not2 not4 have in3: "ToolInit n srcs \<in> set ev3" by auto
  then have "ev3 @ ev4 \<noteq> []" by auto
  with t obtain srcs' r3 where r1: "r1 = Inr srcs'" and t': "initTools env cfg srcs' = (ev3, r3)"
    by auto
  from initTools_events [OF t'] in3 have "srcs' = srcs" by auto
  with s' r1 evs show ?thesis by auto
qed

lemma NewServer_toolset_sees_tools:
  assumes "NewServer env cfg = (evs, res)" and "ToolsetInit n tls \<in> set evs"
  shows "\<exists>ev1 srcs ev3. initSources env cfg = (ev1, Inr srcs)
           \<and> initTools env cfg srcs = (ev3, Inr tls) \<and> set ev3 \<subseteq> set evs"
proof -
  from NewServer_trace [OF assms(1)] obtain ev1 ev2 ev3 ev4 r1 where
    evs: "evs = ev1 @ ev2 @ ev3 @ ev4"
    and s: "evs \<noteq> [] \<longrightarrow> initSources env cfg = (ev1, r1)"
    and a: "\<forall>e \<in> set ev2. \<exists>n. e = AuthServiceInit n"
    and t: "ev3 @ ev4 \<noteq> [] \<longrightarrow>
               (\<exists>srcs r3. r1 = Inr srcs \<and> initTools env cfg srcs = (ev3, r3)
                  \<and> (ev4 \<noteq> [] \<longrightarrow>
                       (\<exists>tls r4. r3 = Inr tls \<and> initToolsets env cfg tls = (ev4, r4))))"
    by blast
  from assms(2) have ne: "evs \<noteq> []" by auto
  with s have s': "initSources env cfg = (ev1, r1)" by simp
  have not1: "ToolsetInit n tls \<notin> set ev1"
    using initSources_events [OF s'] by auto
  have not2: "ToolsetInit n tls \<notin> set ev2"
    using a by auto
  have not3: "ToolsetInit n tls \<notin> set ev3"
  proof (cases "ev3 = []")
    case True
    then show ?thesis by simp
  next
    case False
    with t obtain srcs r3 where "initTools env cfg srcs = (ev3, r3)" by auto
    from initTools_events [OF this] show ?thesis by auto
  qed
  from assms(2) evs not1 not2 not3 have in4: "ToolsetInit n tls \<in> set ev4" by auto
  then have "ev4 \<noteq> []" by auto
  with t obtain srcs tls' r4 where r1: "r1 = Inr srcs"
    and t': "initTools env cfg srcs = (ev3, Inr tls')"
    and ts: "initToolsets env cfg tls' = (ev4, r4)"
    by auto
  from initToolsets_events [OF ts] in4 have "tls' = tls" by auto
  with s' r1 t' evs show ?thesis by auto
qed

lemma NewServer_sources_ready:
  assumes "NewServer env cfg = (evs, res)" and "ToolInit n srcs \<in> set evs"
  shows "DAList.lookup (SourceConfigs cfg) name = Some sc \<Longrightarrow>
           SourceInit name \<in> set evs
         \<and> (\<exists>s. sc_Initialize sc = Inr s \<and> DAList.lookup srcs name = Some s)"
    and "DAList.lookup (SourceConfigs cfg) name = None \<Longrightarrow> DAList.lookup srcs name = None"
proof -
  from NewServer_tool_sees_sources [OF assms] obtain ev1 where
    s: "initSources env cfg = (ev1, Inr srcs)" and sub: "set ev1 \<subseteq> set evs"
    by blast
  note r = range_init_results [OF s [unfolded initSources_def]]
  show "SourceInit name \<in> set evs
      \<and> (\<exists>s. sc_Initialize sc = Inr s \<and> DAList.lookup srcs name = Some s)"
    if "DAList.lookup (SourceConfigs cfg) name = Some sc"
    using r(1) [OF that] sub by blast
  show "DAList.lookup srcs name = None" if "DAList.lookup (SourceConfigs cfg) name = None"
    using r(2) [OF that] .
qed

lemma NewServer_tools_ready:
  assumes "NewServer env cfg = (evs, res)" and "ToolsetInit n tls \<in> set evs"
  shows "DAList.lookup (ToolConfigs cfg) name = Some tc \<Longrightarrow>
           (\<exists>srcs t. ToolInit name srcs \<in> set evs \<and> tc_Initialize tc srcs = Inr t
              \<and> DAList.lookup tls name = Some t)"
    and "DAList.lookup (ToolConfigs cfg) name = None \<Longrightarrow> DAList.lookup tls name = None"
proof -
  from NewServer_toolset_sees_tools [OF assms] obtain ev1 srcs ev3 where
    t: "initTools env cfg srcs = (ev3, Inr tls)" and sub: "set ev3 \<subseteq> set evs"
    by blast
  note r = range_init_results [OF t [unfolded initTools_def]]
  show "\<exists>srcs t. ToolInit name srcs \<in> set evs \<and> tc_Initialize tc srcs = Inr t
      \<and> DAList.lookup tls name = Some t"
    if "DAList.lookup (ToolConfigs cfg) name = Some tc"
    using r(1) [OF that] sub by blast
  show "DAList.lookup tls name = None" if "DAList.lookup (ToolConfigs cfg) name = None"
    using r(2) [OF that] .
qed

lemma NewServer_tool_failure:
  assumes run: "NewServer env cfg = (evs, res)"
    and "httpSetup env cfg = None"
    and "initSources env cfg = (ev1, Inr srcs)"
    and "initAuthServices env cfg = (ev2, Inr auths)"
    and "DAList.lookup (ToolConfigs cfg) n = Some tc"
    and "tc_Initialize tc srcs = Inl e"
  shows "\<exists>n' tc' e'. DAList.lookup (ToolConfigs cfg) n' = Some tc'
           \<and> tc_Initialize tc' srcs = Inl e' \<and> res = Inl (ToolInitError n' e')"
proof -
  from assms(5) have "(n, tc) \<in> set (go_range (range_rank env 2) (ToolConfigs cfg))"
    by (simp add: in_range_lookup)
  from range_init_fails [OF this, of "\<lambda>tc. tc_Initialize tc srcs" e] assms(6)
  obtain ev3 err where t: "initTools env cfg srcs = (ev3, Inl err)"
    unfolding initTools_def by blast
  from range_init_Inl [OF t [unfolded initTools_def]]
  obtain n' tc' e' where "(n', tc') \<in> set (go_range (range_rank env 2) (ToolConfigs cfg))"
    and "tc_Initialize tc' srcs = Inl e'" and "err = ToolInitError n' e'"
    by blast
  moreover from NewServer_reaches_tools [OF assms(2,3,4) t] run have "res = Inl err"
    by simp
  ultimately show ?thesis
    by (auto simp: in_range_lookup)
qed

lemma NewServer_called_tool_fails:
  assumes run: "NewServer env cfg = (evs, res)"
    and called: "ToolInit n srcs \<in> set evs"
    and tc: "DAList.lookup (ToolConfigs cfg) n = Some tc"
    and e: "tc_Initialize tc srcs = Inl e"
  shows "res = Inl (ToolInitError n e)"
proof -
  from NewServer_tool_sees_sources [OF run called] obtain ev1 where
    s: "initSources env cfg = (ev1, Inr srcs)"
    by blast
  obtain ev3 r3 where t: "initTools env cfg srcs = (ev3, r3)"
    by (cases "initTools env cfg srcs")
  obtain ev2 r2 where a: "initAuthServices env cfg = (ev2, r2)"
    by (cases "initAuthServices env cfg")
  have no1: "ToolInit n srcs \<notin> set ev1"
    using initSources_events [OF s] by auto
  have no2: "ToolInit n srcs \<notin> set ev2"
    using initAuthServices_events [OF a] by auto
  have h: "httpSetup env cfg = None"
    using run called by (cases "httpSetup env cfg") (auto simp: NewServer_def)
  from run called s a h no1 no2 obtain auths where r2: "r2 = Inr auths"
    by (cases r2) (auto simp: NewServer_def)
  have in3: "ToolInit n srcs \<in> set ev3"
  proof (cases r3)
    case (Inl err)
    from NewServer_reaches_tools [OF h s a [unfolded r2] t [unfolded Inl]] run called no1 no2
    show ?thesis by auto
  next
    case (Inr tls)
    obtain ev4 r4 where ts: "initToolsets env cfg tls = (ev4, r4)"
      by (cases "initToolsets env cfg tls")
    have "ToolInit n srcs \<notin> set ev4"
      using initToolsets_events [OF ts] by auto
    moreover from run h s a r2 t Inr ts have "evs = ev1 @ ev2 @ ev3 @ ev4"
      by (auto simp: NewServer_def Let_def split: sum.splits option.splits)
    ultimately show ?thesis
      using called no1 no2 by auto
  qed
  have "(n, tc) \<in> set (go_range (range_rank env 2) (ToolConfigs cfg))"
    using tc by (simp add: in_range_lookup)
  from range_init_visited_fails [OF t [unfolded initTools_def] _ distinct_go_range this in3 e]
  have r3: "r3 = Inl (ToolInitError n e)"
    by (simp add: inj_on_def)
  from NewServer_reaches_tools [OF h s a [unfolded r2] t [unfolded r3]] run show ?thesis
    by simp
qed

subsection \<open>The claims about NewServer\<close>

lemma resolve_tools_names:
  "resolve_tools unknown toolsMap ns = Inr ts \<Longrightarrow> map fst ts = ns"
  by (induction ns arbitrary: ts) (auto split: option.splits sum.splits)

lemma ToolsetConfig_Initialize_names:
  assumes "ToolsetConfig_Initialize unknown tc v toolsMap = Inr ts"
  shows "map fst (toolset_Tools ts) = ToolNames tc" and "toolset_Name ts = Name tc"
  using assms resolve_tools_names [of unknown toolsMap "ToolNames tc"]
  by (auto simp: ToolsetConfig_Initialize_def split: sum.splits)

text \<open>
  C1. When \<^verbatim>\<open>NewServer\<close> returns a server, its toolset map has an entry for the empty
  name, and that toolset is the one \<^verbatim>\<open>ToolsetConfig.Initialize\<close> built, against the server's
  tool map, from the configuration \<^verbatim>\<open>{Name: "", ToolNames: names}\<close>, where \<open>names\<close> lists
  every configured tool name exactly once. This holds for every configuration, whatever
  toolsets it declares: a declared toolset named \<^verbatim>\<open>""\<close> is overwritten before the toolsets
  are built.
\<close>

theorem NewServer_default_toolset:
  assumes "NewServer env cfg = (evs, Inr srv)"
  shows "\<exists>names ts.
           DAList.lookup (toolsets srv) [] = Some ts
         \<and> ToolsetInitialize env \<lparr>Name = [], ToolNames = names\<rparr> (Version cfg) (tools srv)
             = Inr ts
         \<and> set names = set (keys (ToolConfigs cfg)) \<and> distinct names
         \<and> set (keys (tools srv)) = set (keys (ToolConfigs cfg))"
proof -
  from NewServer_Inr [OF assms] obtain ev3 ev4 where
    t: "initTools env cfg (sources srv) = (ev3, Inr (tools srv))"
    and ts: "initToolsets env cfg (tools srv) = (ev4, Inr (toolsets srv))"
    by blast
  define names where "names = map fst (go_range (range_rank env 3) (tools srv))"
  let ?d = "\<lparr>Name = [], ToolNames = names\<rparr>"
  have keys: "set (keys (tools srv)) = set (keys (ToolConfigs cfg))"
    by (rule initTools_Inr(1) [OF t])
  have names: "set names = set (keys (ToolConfigs cfg))" "distinct names"
    using keys by (simp_all add: names_def set_keys_go_range distinct_go_range)
  have "DAList.lookup (withDefaultToolset env cfg (tools srv)) [] = Some ?d"
    by (simp add: withDefaultToolset_def names_def)
  then have "([], ?d) \<in> set (go_range (range_rank env 4) (withDefaultToolset env cfg (tools srv)))"
    by (simp add: in_range_lookup)
  from range_init_lookup [OF ts [unfolded initToolsets_def] distinct_go_range this]
  obtain a where "ToolsetInitialize env ?d (Version cfg) (tools srv) = Inr a"
    and "DAList.lookup (toolsets srv) [] = Some a"
    by blast
  with names keys show ?thesis by blast
qed

theorem NewServer_default_toolset_witness:
  "\<exists>evs srv names ts.
      NewServer example_env (example_config ''my-pg-instance'' []) = (evs, Inr srv)
    \<and> DAList.lookup (toolsets srv) [] = Some ts
    \<and> ToolsetInitialize example_env \<lparr>Name = [], ToolNames = names\<rparr> ''0.0.0'' (tools srv) = Inr ts
    \<and> set names = {''example_tool''} \<and> distinct names
    \<and> map fst (toolset_Tools ts) = names"
proof -
  have "\<exists>evs srv. NewServer example_env (example_config ''my-pg-instance'' []) = (evs, Inr srv)"
    by (simp add: example_defs)
  then obtain evs srv where
    run: "NewServer example_env (example_config ''my-pg-instance'' []) = (evs, Inr srv)"
    by blast
  have k: "set (keys (ToolConfigs (example_config ''my-pg-instance'' []))) = {''example_tool''}"
    and v: "Version (example_config ''my-pg-instance'' []) = ''0.0.0''"
    by (simp_all add: example_defs)
  from NewServer_default_toolset [OF run] obtain names ts where
    l: "DAList.lookup (toolsets srv) [] = Some ts"
    and i: "ToolsetInitialize example_env \<lparr>Name = [], ToolNames = names\<rparr>
        (Version (example_config ''my-pg-instance'' [])) (tools srv) = Inr ts"
    and n: "set names = set (keys (ToolConfigs (example_config ''my-pg-instance'' [])))"
      "distinct names"
    by (elim exE conjE)
  have i': "ToolsetInitialize example_env \<lparr>Name = [], ToolNames = names\<rparr> ''0.0.0'' (tools srv)
      = Inr ts"
    using i by (simp only: v)
  have e: "ToolsetInitialize example_env
      = ToolsetConfig_Initialize (\<lambda>n. ErrorNew (''tool does not exist: '' @ n))"
    by (simp add: example_env_def)
  have m: "map fst (toolset_Tools ts) = names"
    using ToolsetConfig_Initialize_names(1) [OF i' [unfolded e]] by simp
  have n': "set names = {''example_tool''}"
    using n(1) by (simp only: k)
  show ?thesis
    by (intro exI conjI) (rule run l i' n' n(2) m)+
qed

text \<open>
  C2. If a source or an auth service of the configuration fails to initialize, or a tool
  fails on the source map the build hands it, or a toolset (of the toolset configurations
  as they stand once the default toolset is stored) fails on the tool map the build hands
  it, then \<^verbatim>\<open>NewServer\<close> returns an error and no server.
\<close>

theorem NewServer_all_or_nothing:
  assumes "(\<exists>n sc e. DAList.lookup (SourceConfigs cfg) n = Some sc \<and> sc_Initialize sc = Inl e)
    \<or> (\<exists>n ac e. DAList.lookup (AuthServiceConfigs cfg) n = Some ac \<and> ac_Initialize ac = Inl e)
    \<or> (\<exists>n tc e ev1 srcs. initSources env cfg = (ev1, Inr srcs)
          \<and> DAList.lookup (ToolConfigs cfg) n = Some tc \<and> tc_Initialize tc srcs = Inl e)
    \<or> (\<exists>n c e ev1 srcs ev3 tls. initSources env cfg = (ev1, Inr srcs)
          \<and> initTools env cfg srcs = (ev3, Inr tls)
          \<and> DAList.lookup (withDefaultToolset env cfg tls) n = Some c
          \<and> ToolsetInitialize env c (Version cfg) tls = Inl e)"
  shows "\<exists>evs err. NewServer env cfg = (evs, Inl err)"
proof -
  obtain evs res where run: "NewServer env cfg = (evs, res)"
    by (cases "NewServer env cfg")
  show ?thesis
  proof (cases res)
    case (Inl err)
    with run show ?thesis by blast
  next
    case (Inr srv)
    from NewServer_Inr [OF run [unfolded Inr]] obtain ev1 ev2 ev3 ev4 where
      s: "initSources env cfg = (ev1, Inr (sources srv))"
      and a: "initAuthServices env cfg = (ev2, Inr (authServices srv))"
      and t: "initTools env cfg (sources srv) = (ev3, Inr (tools srv))"
      and ts: "initToolsets env cfg (tools srv) = (ev4, Inr (toolsets srv))"
      by blast
    have ok1: "\<And>n sc. DAList.lookup (SourceConfigs cfg) n = Some sc \<Longrightarrow> \<exists>x. sc_Initialize sc = Inr x"
      using range_init_all_ok [OF s [unfolded initSources_def]] by blast
    have ok2: "\<And>n ac. DAList.lookup (AuthServiceConfigs cfg) n = Some ac \<Longrightarrow> \<exists>x. ac_Initialize ac = Inr x"
      using range_init_all_ok [OF a [unfolded initAuthServices_def]] by blast
    have ok3: "\<And>n tc. DAList.lookup (ToolConfigs cfg) n = Some tc \<Longrightarrow>
        \<exists>x. tc_Initialize tc (sources srv) = Inr x"
      using range_init_all_ok [OF t [unfolded initTools_def]] by blast
    have ok4: "\<And>n c. DAList.lookup (withDefaultToolset env cfg (tools srv)) n = Some c \<Longrightarrow>
        \<exists>x. ToolsetInitialize env c (Version cfg) (tools srv) = Inr x"
      using range_init_all_ok [OF ts [unfolded initToolsets_def]] by blast
    from assms s t ok1 ok2 ok3 ok4 have False
      by (elim disjE exE conjE) fastforce+
    then show ?thesis ..
  qed
qed

theorem NewServer_all_or_nothing_witness:
  "initSources example_env (example_config ''my-pg-instance'' ''mine'')
     = ([SourceInit ''my-pg-instance''],
        Inr (DAList.update ''my-pg-instance'' ''client'' DAList.empty))
   \<and> (\<exists>ev3 tls.
         initTools example_env (example_config ''my-pg-instance'' ''mine'')
           (DAList.update ''my-pg-instance'' ''client'' DAList.empty) = (ev3, Inr tls)
       \<and> DAList.lookup
           (withDefaultToolset example_env (example_config ''my-pg-instance'' ''mine'') tls)
           ''mine'' = Some \<lparr>Name = ''mine'', ToolNames = [''no_such_tool'']\<rparr>
       \<and> ToolsetInitialize example_env \<lparr>Name = ''mine'', ToolNames = [''no_such_tool'']\<rparr>
           (Version (example_config ''my-pg-instance'' ''mine'')) tls
           = Inl (ErrorNew ''tool does not exist: no_such_tool''))
   \<and> (\<exists>evs err.
         NewServer example_env (example_config ''my-pg-instance'' ''mine'') = (evs, Inl err))"
proof -
  let ?cfg = "example_config ''my-pg-instance'' ''mine''"
  let ?srcs = "DAList.update ''my-pg-instance'' ''client'' DAList.empty"
  have s: "initSources example_env ?cfg = ([SourceInit ''my-pg-instance''], Inr ?srcs)"
    by (simp add: example_defs)
  have "\<exists>ev3 tls. initTools example_env ?cfg ?srcs = (ev3, Inr tls)"
    by (simp add: example_defs)
  then obtain ev3 tls where t: "initTools example_env ?cfg ?srcs = (ev3, Inr tls)"
    by blast
  have l: "DAList.lookup (withDefaultToolset example_env ?cfg tls) ''mine''
      = Some \<lparr>Name = ''mine'', ToolNames = [''no_such_tool'']\<rparr>"
    by (simp add: example_defs)
  from t have tls: "DAList.lookup tls ''no_such_tool'' = None"
    by (auto simp: example_defs)
  have f: "ToolsetInitialize example_env \<lparr>Name = ''mine'', ToolNames = [''no_such_tool'']\<rparr>
      (Version ?cfg) tls = Inl (ErrorNew ''tool does not exist: no_such_tool'')"
    using tls by (simp add: example_defs)
  from s t l f have "\<exists>evs err. NewServer example_env ?cfg = (evs, Inl err)"
    by (intro NewServer_all_or_nothing) blast
  with s t l f show ?thesis by blast
qed

text \<open>
  C3. In the trace of every build the calls are in the order sources, auth services, tools,
  toolsets. Whenever a tool constructor is called, every configured source has been
  initialized earlier in the trace, its \<^verbatim>\<open>Initialize\<close> returned a source and no error, and
  the map handed to the constructor holds exactly these sources under their names.
  Whenever a toolset constructor is called, every configured tool has been constructed
  earlier in the trace, on such a source map and with no error, and the map handed to the
  toolset constructor holds exactly these tools. When the constructor of a tool is called
  and fails on the map it is handed (as it does when the tool's declared source name does
  not resolve), the build fails with \<^verbatim>\<open>unable to initialize tool %q: %w\<close>, naming that
  tool and wrapping the error the constructor returned; and whenever the build reaches the
  tools and some tool's constructor fails on the source map, the build fails with such an
  error.
\<close>

theorem NewServer_build_order:
  assumes "NewServer env cfg = (evs, res)"
  shows "sorted (map phase evs)
    \<and> (\<forall>n srcs name sc.
          ToolInit n srcs \<in> set evs \<and> DAList.lookup (SourceConfigs cfg) name = Some sc \<longrightarrow>
          SourceInit name \<in> set evs
        \<and> (\<exists>s. sc_Initialize sc = Inr s \<and> DAList.lookup srcs name = Some s))
    \<and> (\<forall>n srcs name.
          ToolInit n srcs \<in> set evs \<and> DAList.lookup (SourceConfigs cfg) name = None \<longrightarrow>
          DAList.lookup srcs name = None)
    \<and> (\<forall>n tls name tc.
          ToolsetInit n tls \<in> set evs \<and> DAList.lookup (ToolConfigs cfg) name = Some tc \<longrightarrow>
          (\<exists>srcs t. ToolInit name srcs \<in> set evs \<and> tc_Initialize tc srcs = Inr t
             \<and> DAList.lookup tls name = Some t))
    \<and> (\<forall>n tls name.
          ToolsetInit n tls \<in> set evs \<and> DAList.lookup (ToolConfigs cfg) name = None \<longrightarrow>
          DAList.lookup tls name = None)
    \<and> (\<forall>n srcs tc e.
          ToolInit n srcs \<in> set evs
        \<and> DAList.lookup (ToolConfigs cfg) n = Some tc \<and> tc_Initialize tc srcs = Inl e \<longrightarrow>
          res = Inl (ToolInitError n e)
        \<and> error_string q (ToolInitError n e)
            = ''unable to initialize tool '' @ q n @ '': '' @ error_string q e)
    \<and> (\<forall>ev1 srcs ev2 auths n tc e.
          httpSetup env cfg = None \<and> initSources env cfg = (ev1, Inr srcs)
        \<and> initAuthServices env cfg = (ev2, Inr auths)
        \<and> DAList.lookup (ToolConfigs cfg) n = Some tc \<and> tc_Initialize tc srcs = Inl e \<longrightarrow>
          (\<exists>n' tc' e'. DAList.lookup (ToolConfigs cfg) n' = Some tc'
             \<and> tc_Initialize tc' srcs = Inl e' \<and> res = Inl (ToolInitError n' e')))"
proof (intro conjI allI impI)
  show "sorted (map phase evs)"
    by (rule NewServer_phases_sorted [OF assms])
next
  fix n srcs name sc
  assume h: "ToolInit n srcs \<in> set evs \<and> DAList.lookup (SourceConfigs cfg) name = Some sc"
  from NewServer_sources_ready(1) [OF assms, of n srcs name sc] h
  show "SourceInit name \<in> set evs"
    and "\<exists>s. sc_Initialize sc = Inr s \<and> DAList.lookup srcs name = Some s"
    by blast+
next
  fix n srcs name
  assume h: "ToolInit n srcs \<in> set evs \<and> DAList.lookup (SourceConfigs cfg) name = None"
  from NewServer_sources_ready(2) [OF assms, of n srcs name] h
  show "DAList.lookup srcs name = None"
    by simp
next
  fix n tls name tc
  assume h: "ToolsetInit n tls \<in> set evs \<and> DAList.lookup (ToolConfigs cfg) name = Some tc"
  from NewServer_tools_ready(1) [OF assms, of n tls name tc] h
  show "\<exists>srcs t. ToolInit name srcs \<in> set evs \<and> tc_Initialize tc srcs = Inr t
      \<and> DAList.lookup tls name = Some t"
    by blast
next
  fix n tls name
  assume h: "ToolsetInit n tls \<in> set evs \<and> DAList.lookup (ToolConfigs cfg) name = None"
  from NewServer_tools_ready(2) [OF assms, of n tls name] h
  show "DAList.lookup tls name = None"
    by simp
next
  fix n srcs tc e
  assume h: "ToolInit n srcs \<in> set evs
        \<and> DAList.lookup (ToolConfigs cfg) n = Some tc \<and> tc_Initialize tc srcs = Inl e"
  from NewServer_called_tool_fails [OF assms, of n srcs tc e] h
  show "res = Inl (ToolInitError n e)"
    by blast
  show "error_string q (ToolInitError n e)
      = ''unable to initialize tool '' @ q n @ '': '' @ error_string q e"
    by simp
next
  fix ev1 srcs ev2 auths n tc e
  assume h: "httpSetup env cfg = None \<and> initSources env cfg = (ev1, Inr srcs)
        \<and> initAuthServices env cfg = (ev2, Inr auths)
        \<and> DAList.lookup (ToolConfigs cfg) n = Some tc \<and> tc_Initialize tc srcs = Inl e"
  from NewServer_tool_failure [OF assms, of ev1 srcs ev2 auths n tc e] h
  show "\<exists>n' tc' e'. DAList.lookup (ToolConfigs cfg) n' = Some tc'
             \<and> tc_Initialize tc' srcs = Inl e' \<and> res = Inl (ToolInitError n' e')"
    by auto
qed

theorem NewServer_build_order_witness:
  "(\<exists>srv. NewServer example_env (example_config ''my-pg-instance'' [])
       = ([SourceInit ''my-pg-instance'',
           ToolInit ''example_tool'' (DAList.update ''my-pg-instance'' ''client'' DAList.empty),
           ToolsetInit [] (DAList.update ''example_tool'' example_live_tool DAList.empty)],
          Inr srv))
   \<and> sorted (map phase
         [SourceInit ''my-pg-instance'',
          ToolInit ''example_tool'' (DAList.update ''my-pg-instance'' ''client'' DAList.empty),
          ToolsetInit [] (DAList.update ''example_tool'' example_live_tool DAList.empty)
            :: (string, string Tool) event])
   \<and> (\<exists>s. sc_Initialize \<lparr>SourceConfigKind = ''bigtable'', sc_Initialize = Inr ''client''\<rparr> = Inr s
        \<and> DAList.lookup (DAList.update ''my-pg-instance'' ''client'' DAList.empty)
            ''my-pg-instance'' = Some s)
   \<and> (\<exists>srcs t. tc_Initialize (ToolConfig_of no_source example_tool) srcs = Inr t
        \<and> DAList.lookup (DAList.update ''example_tool'' example_live_tool DAList.empty)
            ''example_tool'' = Some t)
   \<and> NewServer example_env (example_config ''other'' [])
       = ([SourceInit ''other'',
           ToolInit ''example_tool'' (DAList.update ''other'' ''client'' DAList.empty)],
          Inl (ToolInitError ''example_tool'' (no_source ''my-pg-instance'')))
   \<and> tc_Initialize (ToolConfig_of no_source example_tool)
         (DAList.update ''other'' ''client'' DAList.empty)
       = Inl (no_source ''my-pg-instance'')
   \<and> error_string quoted (ToolInitError ''example_tool'' (no_source ''my-pg-instance''))
       = ''unable to initialize tool '' @ [CHR 0x22] @ ''example_tool'' @ [CHR 0x22] @ '': ''
           @ error_string quoted (no_source ''my-pg-instance'')"
proof -
  let ?cfgA = "example_config ''my-pg-instance'' []"
  let ?srcsA = "DAList.update ''my-pg-instance'' ''client'' DAList.empty :: string gomap"
  let ?tlsA = "DAList.update ''example_tool'' example_live_tool DAList.empty"
  let ?evsA = "[SourceInit ''my-pg-instance'', ToolInit ''example_tool'' ?srcsA,
      ToolsetInit [] ?tlsA] :: (string, string Tool) event list"
  let ?sc = "\<lparr>SourceConfigKind = ''bigtable'', sc_Initialize = Inr ''client''\<rparr>
      :: string SourceConfig"
  let ?tc = "ToolConfig_of no_source example_tool :: (string, string Tool) ToolConfig"
  let ?cfgB = "example_config ''other'' []"
  let ?srcsB = "DAList.update ''other'' ''client'' DAList.empty :: string gomap"
  let ?evsB = "[SourceInit ''other'', ToolInit ''example_tool'' ?srcsB]
      :: (string, string Tool) event list"
  have "\<exists>srv. NewServer example_env ?cfgA = (?evsA, Inr srv)"
    by (simp add: example_defs)
  then obtain srv where runA: "NewServer example_env ?cfgA = (?evsA, Inr srv)"
    by (elim exE)
  note orderA = NewServer_build_order [OF runA, of quoted]
  note sortedA = orderA [THEN conjunct1]
  note sourcesA = orderA [THEN conjunct2, THEN conjunct1, rule_format,
      of "''example_tool''" ?srcsA "''my-pg-instance''" ?sc]
  note toolsA = orderA [THEN conjunct2, THEN conjunct2, THEN conjunct2, THEN conjunct1,
      rule_format, of "[]" ?tlsA "''example_tool''" ?tc]
  have inA: "ToolInit ''example_tool'' ?srcsA \<in> set ?evsA" "ToolsetInit [] ?tlsA \<in> set ?evsA"
    by simp_all
  have cA: "DAList.lookup (SourceConfigs ?cfgA) ''my-pg-instance'' = Some ?sc"
    "DAList.lookup (ToolConfigs ?cfgA) ''example_tool'' = Some ?tc"
    by (simp_all add: example_defs)
  from sourcesA [OF conjI [OF inA(1) cA(1)]]
  have a2: "\<exists>s. sc_Initialize ?sc = Inr s \<and> DAList.lookup ?srcsA ''my-pg-instance'' = Some s"
    by (rule conjunct2)
  from toolsA [OF conjI [OF inA(2) cA(2)]]
  have a3: "\<exists>srcs t. tc_Initialize ?tc srcs = Inr t \<and> DAList.lookup ?tlsA ''example_tool'' = Some t"
    by (elim exE conjE) (intro exI conjI)
  obtain res where runB: "NewServer example_env ?cfgB = (?evsB, res)"
    by (simp add: example_defs)
  note orderB = NewServer_build_order [OF runB, of quoted]
  note namedB = orderB [THEN conjunct2, THEN conjunct2, THEN conjunct2, THEN conjunct2,
      THEN conjunct2, THEN conjunct1, rule_format,
      of "''example_tool''" ?srcsB ?tc "no_source ''my-pg-instance''"]
  have inB: "ToolInit ''example_tool'' ?srcsB \<in> set ?evsB"
    by simp
  have cB: "DAList.lookup (ToolConfigs ?cfgB) ''example_tool'' = Some ?tc"
    and fB: "tc_Initialize ?tc ?srcsB = Inl (no_source ''my-pg-instance'')"
    by (simp_all add: example_defs)
  note b = namedB [OF conjI [OF inB conjI [OF cB fB]]]
  from b have resB: "res = Inl (ToolInitError ''example_tool'' (no_source ''my-pg-instance''))"
    by (rule conjunct1)
  from b have textB: "error_string quoted (ToolInitError ''example_tool'' (no_source ''my-pg-instance''))
      = ''unable to initialize tool '' @ quoted ''example_tool'' @ '': ''
          @ error_string quoted (no_source ''my-pg-instance'')"
    by (rule conjunct2)
  have textB': "error_string quoted (ToolInitError ''example_tool'' (no_source ''my-pg-instance''))
      = ''unable to initialize tool '' @ [CHR 0x22] @ ''example_tool'' @ [CHR 0x22] @ '': ''
          @ error_string quoted (no_source ''my-pg-instance'')"
    using textB by (simp add: quoted_def)
  have runA': "\<exists>srv. NewServer example_env ?cfgA = (?evsA, Inr srv)"
    using runA by (rule exI)
  show ?thesis
    using runA' sortedA a2 a3 runB [unfolded resB] fB textB'
    by (intro conjI)
qed

section \<open>Authorization and tools/call\<close>

lemma first_verified_Some_iff:
  "(\<exists>c. first_verified verify creds ns = Some c) \<longleftrightarrow>
     (\<exists>n \<in> set ns. \<exists>token claims. creds n = Some token \<and> verify n token = Some claims)"
  by (induction ns) (auto split: option.splits)

lemma first_verified_sound:
  "first_verified verify creds ns = Some (n, claims) \<Longrightarrow>
     n \<in> set ns \<and> (\<exists>token. creds n = Some token \<and> verify n token = Some claims)"
  by (induction ns) (auto split: option.splits)

text \<open>
  C4. A tool with an empty \<^verbatim>\<open>AuthRequired\<close> is authorized unconditionally, with no claims. A
  tool with a non-empty \<^verbatim>\<open>AuthRequired\<close> is authorized exactly when some listed service has
  a credential presented that the service verifies, whatever the other services answer;
  and authorization fails exactly when every listed service has no credential presented or
  fails to verify the one presented.
\<close>

theorem Authorize_any_one:
  "(tool_AuthRequired t = [] \<longrightarrow> Authorize verify t creds = Inr [])
   \<and> (tool_AuthRequired t \<noteq> [] \<longrightarrow>
        ((\<exists>claims. Authorize verify t creds = Inr claims) \<longleftrightarrow>
           (\<exists>n \<in> set (tool_AuthRequired t). \<exists>token c.
               creds n = Some token \<and> verify n token = Some c))
      \<and> ((\<exists>e. Authorize verify t creds = Inl e) \<longleftrightarrow>
           (\<forall>n \<in> set (tool_AuthRequired t).
               creds n = None \<or> (\<exists>token. creds n = Some token \<and> verify n token = None))))"
proof -
  have iff: "(\<exists>c. first_verified verify creds (tool_AuthRequired t) = Some c) \<longleftrightarrow>
      (\<exists>n \<in> set (tool_AuthRequired t). \<exists>token c.
          creds n = Some token \<and> verify n token = Some c)"
    by (rule first_verified_Some_iff)
  have ok: "tool_AuthRequired t \<noteq> [] \<Longrightarrow>
      (\<exists>claims. Authorize verify t creds = Inr claims) \<longleftrightarrow>
      (\<exists>c. first_verified verify creds (tool_AuthRequired t) = Some c)"
    by (auto simp: Authorize_def split: option.splits)
  have bad: "tool_AuthRequired t \<noteq> [] \<Longrightarrow>
      (\<exists>e. Authorize verify t creds = Inl e) \<longleftrightarrow>
      \<not> (\<exists>c. first_verified verify creds (tool_AuthRequired t) = Some c)"
    by (auto simp: Authorize_def split: option.splits)
  have neg: "(\<not> (\<exists>n \<in> set (tool_AuthRequired t). \<exists>token c.
          creds n = Some token \<and> verify n token = Some c)) \<longleftrightarrow>
      (\<forall>n \<in> set (tool_AuthRequired t).
          creds n = None \<or> (\<exists>token. creds n = Some token \<and> verify n token = None))"
    by (metis option.exhaust option.distinct(1) option.inject)
  show ?thesis
    using iff ok bad neg by (simp add: Authorize_def)
qed

theorem Authorize_any_one_witness:
  "tool_AuthRequired two_services_tool = [''svcA'', ''svcB'']
   \<and> credentials [(''svcA_token'', ''expired''), (''svcB_token'', ''ID_TOKEN'')] ''svcA''
       = Some ''expired''
   \<and> (\<lambda>service token. if token = ''ID_TOKEN'' then Some ''claims'' else None)
         ''svcA'' ''expired'' = (None :: string option)
   \<and> (\<exists>claims.
         Authorize (\<lambda>service token. if token = ''ID_TOKEN'' then Some ''claims'' else None)
           two_services_tool
           (credentials [(''svcA_token'', ''expired''), (''svcB_token'', ''ID_TOKEN'')])
         = Inr claims)"
proof -
  let ?verify = "\<lambda>service token. if token = ''ID_TOKEN'' then Some ''claims'' else None"
  let ?creds = "credentials [(''svcA_token'', ''expired''), (''svcB_token'', ''ID_TOKEN'')]"
  have req: "tool_AuthRequired two_services_tool = [''svcA'', ''svcB'']"
    by (simp add: two_services_tool_def test_tool_def)
  have b: "?creds ''svcB'' = Some ''ID_TOKEN''" "?verify ''svcB'' ''ID_TOKEN'' = Some ''claims''"
    by (simp_all add: credentials_def)
  have "\<exists>n \<in> set (tool_AuthRequired two_services_tool). \<exists>token c.
      ?creds n = Some token \<and> ?verify n token = Some c"
    unfolding req using b by auto
  with Authorize_any_one [of two_services_tool ?verify ?creds] req
  have "\<exists>claims. Authorize ?verify two_services_tool ?creds = Inr claims"
    by simp
  then show ?thesis
    using req by (simp add: credentials_def)
qed

text \<open>
  C5. A \<^verbatim>\<open>tools/call\<close> request that names a tool absent from the tool map is answered with
  the error code -32602 and the message
  \<^verbatim>\<open>invalid tool name: tool with name "<name>" does not exist\<close>, under the id of the
  request.
\<close>

theorem toolsCall_unknown_tool:
  assumes "DAList.lookup toolsMap (req_Params_name req) = None"
  shows "toolsCall cap toolsMap headers req =
           \<lparr>resp_jsonrpc = ''2.0'', resp_id = req_Id req,
            resp_body = Error (- 32602)
              (''invalid tool name: tool with name '' @ [CHR 0x22] @ req_Params_name req
                 @ [CHR 0x22] @ '' does not exist'')\<rparr>"
  using assms by (simp add: toolsCall_def NewError_def INVALID_PARAMS_def quoted_def)

theorem toolsCall_unknown_tool_witness:
  "DAList.lookup test_tools ''foo'' = None
   \<and> toolsCall test_capabilities test_tools [] (test_request ''invalid-tool'' ''foo'' [])
       = \<lparr>resp_jsonrpc = ''2.0'', resp_id = IdString ''invalid-tool'',
          resp_body = Error (- 32602)
            (''invalid tool name: tool with name '' @ [CHR 0x22] @ ''foo'' @ [CHR 0x22]
               @ '' does not exist'')\<rparr>"
proof -
  have h: "DAList.lookup test_tools (req_Params_name (test_request ''invalid-tool'' ''foo'' []))
      = None"
    by (simp add: test_defs)
  from toolsCall_unknown_tool [OF h, of test_capabilities "[]"] h show ?thesis
    by (simp add: test_request_def)
qed

text \<open>
  C7. A \<^verbatim>\<open>tools/call\<close> request for a tool with a non-empty \<^verbatim>\<open>AuthRequired\<close> whose
  authorization fails is answered with the error code -32600 and the message
  \<^verbatim>\<open>unauthorized Tool call: `authRequired` is set for the target Tool\<close>, under the id of
  the request.
\<close>

theorem toolsCall_unauthorized:
  assumes "DAList.lookup toolsMap (req_Params_name req) = Some t"
    and "tool_AuthRequired t \<noteq> []"
    and "Authorize (Verify cap) t (credentials headers) = Inl e"
  shows "toolsCall cap toolsMap headers req =
           \<lparr>resp_jsonrpc = ''2.0'', resp_id = req_Id req,
            resp_body = Error (- 32600)
              ''unauthorized Tool call: `authRequired` is set for the target Tool''\<rparr>"
  using assms by (simp add: toolsCall_def NewError_def INVALID_REQUEST_def)

theorem toolsCall_unauthorized_witness:
  "DAList.lookup test_tools ''my-auth-required-tool''
     = Some (test_tool ''my-auth-required-tool'' [''my-google-auth''] [])
   \<and> Authorize (Verify test_capabilities)
         (test_tool ''my-auth-required-tool'' [''my-google-auth''] []) (credentials [])
       = Inl (AuthRequiredFor ''my-auth-required-tool'')
   \<and> toolsCall test_capabilities test_tools []
         (test_request ''invoke my-auth-required-tool'' ''my-auth-required-tool'' [])
       = \<lparr>resp_jsonrpc = ''2.0'', resp_id = IdString ''invoke my-auth-required-tool'',
          resp_body = Error (- 32600)
            ''unauthorized Tool call: `authRequired` is set for the target Tool''\<rparr>"
proof -
  let ?t = "test_tool ''my-auth-required-tool'' [''my-google-auth''] []"
  let ?req = "test_request ''invoke my-auth-required-tool'' ''my-auth-required-tool'' []"
  have l: "DAList.lookup test_tools (req_Params_name ?req) = Some ?t"
    by (simp add: test_defs)
  have n: "tool_AuthRequired ?t \<noteq> []"
    by (simp add: test_tool_def)
  have a: "Authorize (Verify test_capabilities) ?t (credentials [])
      = Inl (AuthRequiredFor ''my-auth-required-tool'')"
    by (simp add: test_defs)
  from toolsCall_unauthorized [OF l n a] l a show ?thesis
    by (simp add: test_request_def)
qed

end
